theory Spec2Isabelle
  imports
    Complex_Main
    "HOL-Library.Char_ord"
    "HOL-Library.List_Lexorder"
    "HOL-Library.Product_Lexorder"
begin

section \<open>Python values used by the MRP calculator\<close>

text \<open>
  The calculator (\<^verbatim>\<open>app.py\<close>) works on three kinds of values: codes (Python
  \<^verbatim>\<open>str\<close>), quantities (Python \<^verbatim>\<open>float\<close>) and batch counts (Python \<^verbatim>\<open>int\<close>).

  \<^item> A \<^verbatim>\<open>str\<close> is a \<^typ>\<open>string\<close>.  A character stands for a code point below 256;
    \<open>py_isspace\<close> and \<open>py_isdigit\<close> are \<^verbatim>\<open>str.isspace\<close> and \<^verbatim>\<open>str.isdigit\<close> on that
    range.  The two status labels hold one glyph each beyond that range; they are
    carried as the glyph's UTF-8 bytes and are only ever compared for equality.
  \<^item> An \<^verbatim>\<open>int\<close> is an \<^typ>\<open>int\<close>.
  \<^item> A finite \<^verbatim>\<open>float\<close> is the rational number it denotes, a \<^typ>\<open>rat\<close>.  Every
    arithmetic operation computes the exact rational result and then rounds it with
    \<open>rnd\<close>.  The rounding is a parameter of the whole development: \<open>Binary64\<close> rounds
    to the nearest IEEE-754 double, ties to even, which is what CPython does;
    \<open>Exact\<close> does not round at all and gives the calculator on ideal decimal numbers.
    Infinities, NaN and overflow are outside the model.
\<close>

datatype arith = Exact | Binary64

subsection \<open>Rounding to binary64\<close>

fun bit_length :: "nat \<Rightarrow> nat" where
  "bit_length n = (if n = 0 then 0 else bit_length (n div 2) + 1)"

definition pow2 :: "int \<Rightarrow> rat" where
  "pow2 e = (if 0 \<le> e then 2 ^ nat e else 1 / 2 ^ nat (- e))"

text \<open>\<open>ilog2 x\<close> is the binary exponent \<open>\<lfloor>log\<^sub>2 x\<rfloor>\<close> of a positive rational.\<close>

definition ilog2 :: "rat \<Rightarrow> int" where
  "ilog2 x = (if 1 \<le> x then int (bit_length (nat \<lfloor>x\<rfloor>)) - 1
              else - int (bit_length (nat (\<lceil>1 / x\<rceil> - 1))))"

definition round_half_even :: "rat \<Rightarrow> int" where
  "round_half_even x = (let f = \<lfloor>x\<rfloor>; d = x - of_int f in
     if d < 1 / 2 then f else if 1 / 2 < d then f + 1
     else if even f then f else f + 1)"

text \<open>
  The nearest double: 53 significant bits, the unit in the last place never below
  2 to the power -1074 (subnormal numbers), ties to the even significand.
\<close>

definition b64 :: "rat \<Rightarrow> rat" where
  "b64 x = (if x = 0 then 0 else
     (let a = \<bar>x\<bar>; u = pow2 (max (ilog2 a) (- 1022) - 52)
      in sgn x * of_int (round_half_even (a / u)) * u))"

fun rnd :: "arith \<Rightarrow> rat \<Rightarrow> rat" where
  "rnd Exact x = x"
| "rnd Binary64 x = b64 x"

subsection \<open>Float and int operations\<close>

datatype py_error = ZeroDivisionError

text \<open>A decimal literal of the source, such as \<^verbatim>\<open>0.0001\<close>, and \<^verbatim>\<open>float(n)\<close> of an int.\<close>

definition float_lit :: "arith \<Rightarrow> rat \<Rightarrow> rat" where
  "float_lit ar x = rnd ar x"

definition float_of_int :: "arith \<Rightarrow> int \<Rightarrow> rat" where
  "float_of_int ar n = rnd ar (of_int n)"

definition fadd :: "arith \<Rightarrow> rat \<Rightarrow> rat \<Rightarrow> rat" where
  "fadd ar a b = rnd ar (a + b)"

definition fsub :: "arith \<Rightarrow> rat \<Rightarrow> rat \<Rightarrow> rat" where
  "fsub ar a b = rnd ar (a - b)"

definition fmul :: "arith \<Rightarrow> rat \<Rightarrow> rat \<Rightarrow> rat" where
  "fmul ar a b = rnd ar (a * b)"

text \<open>\<^verbatim>\<open>a / b\<close>; the source only divides by the constant \<^verbatim>\<open>100.0\<close>.\<close>

definition fdiv :: "arith \<Rightarrow> rat \<Rightarrow> rat \<Rightarrow> rat" where
  "fdiv ar a b = rnd ar (a / b)"

text \<open>\<^verbatim>\<open>int(x)\<close> of a float truncates towards zero.\<close>

definition py_int :: "rat \<Rightarrow> int" where
  "py_int x = (if 0 \<le> x then \<lfloor>x\<rfloor> else \<lceil>x\<rceil>)"

text \<open>
  \<^verbatim>\<open>round(x, ndigits)\<close> of a float: the decimal with \<open>ndigits\<close> places nearest to the
  exact value of \<open>x\<close>, ties to even, read back as a float.
\<close>

definition py_round :: "arith \<Rightarrow> rat \<Rightarrow> nat \<Rightarrow> rat" where
  "py_round ar x nd = rnd ar (of_int (round_half_even (x * 10 ^ nd)) / 10 ^ nd)"

text \<open>
  \<^verbatim>\<open>vx // wx\<close> on floats, as CPython's \<^verbatim>\<open>float_divmod\<close> computes the quotient: the
  remainder \<^verbatim>\<open>fmod(vx, wx)\<close> is exact; the quotient \<^verbatim>\<open>(vx - mod) / wx\<close> is rounded
  twice, corrected by one when the remainder and the divisor differ in sign, and then
  snapped to the nearest whole number.  A zero divisor raises.
\<close>

definition floordiv_value :: "arith \<Rightarrow> rat \<Rightarrow> rat \<Rightarrow> rat" where
  "floordiv_value ar vx wx =
     (let md = vx - wx * of_int (py_int (vx / wx));
          dv = rnd ar (rnd ar (vx - md) / wx);
          dv' = (if md \<noteq> 0 \<and> ((wx < 0) \<noteq> (md < 0)) then rnd ar (dv - 1) else dv)
      in if dv' \<noteq> 0
         then (let fl = of_int \<lfloor>dv'\<rfloor>
               in if 1 / 2 < rnd ar (dv' - fl) then rnd ar (fl + 1) else fl)
         else 0)"

definition float_floordiv :: "arith \<Rightarrow> rat \<Rightarrow> rat \<Rightarrow> py_error + rat" where
  "float_floordiv ar vx wx =
     (if wx = 0 then Inl ZeroDivisionError else Inr (floordiv_value ar vx wx))"

subsection \<open>Formatting\<close>

definition digit_char :: "nat \<Rightarrow> char" where
  "digit_char d = ''0123456789'' ! d"

fun str_nat :: "nat \<Rightarrow> string" where
  "str_nat n = (if n < 10 then [digit_char n]
                else str_nat (n div 10) @ [digit_char (n mod 10)])"

text \<open>\<^verbatim>\<open>str(n)\<close> of an int.\<close>

definition str_int :: "int \<Rightarrow> string" where
  "str_int n = (if n < 0 then CHR ''-'' # str_nat (nat (- n)) else str_nat (nat n))"

text \<open>The digits of \<open>n\<close>, padded on the left with zeros to at least \<open>w\<close> digits.\<close>

definition pad_digits :: "nat \<Rightarrow> nat \<Rightarrow> string" where
  "pad_digits w n = (let ds = str_nat n in replicate (w - length ds) CHR ''0'' @ ds)"

text \<open>Thousands separators of the format option \<^verbatim>\<open>,\<close>: a comma before every group
  of three digits, counted from the right.\<close>

fun group3 :: "string \<Rightarrow> string" where
  "group3 ds = (if length ds \<le> 3 then ds
                else group3 (take (length ds - 3) ds) @ CHR '','' # drop (length ds - 3) ds)"

text \<open>
  \<^verbatim>\<open>f"{x:.{nd}f}"\<close> and \<^verbatim>\<open>f"{x:,.{nd}f}"\<close>: the exact value rounded to \<open>nd\<close> places,
  ties to even, with the sign of \<open>x\<close>.
\<close>

definition format_fixed :: "bool \<Rightarrow> rat \<Rightarrow> nat \<Rightarrow> string" where
  "format_fixed commas x nd =
     (let m = nat (round_half_even (\<bar>x\<bar> * 10 ^ nd));
          ip = str_nat (m div 10 ^ nd);
          fp = (if nd = 0 then [] else CHR ''.'' # pad_digits nd (m mod 10 ^ nd))
      in (if x < 0 then ''-'' else []) @ (if commas then group3 ip else ip) @ fp)"

abbreviation format_f :: "rat \<Rightarrow> nat \<Rightarrow> string" where
  "format_f \<equiv> format_fixed False"

section \<open>The code normalizer\<close>

text \<open>
  \<^verbatim>\<open>preserve_8char_code(code)\<close>.  Its argument is a spreadsheet cell: a missing value
  (\<^verbatim>\<open>pd.isna\<close>) or a string.
\<close>

datatype cell = PyNaN | PyStr string

definition py_isspace :: "char \<Rightarrow> bool" where
  "py_isspace c = (of_char c \<in> {9, 10, 11, 12, 13, 28, 29, 30, 31, 32, 133, 160 :: nat})"

definition py_isdigit :: "char \<Rightarrow> bool" where
  "py_isdigit c = (let n = of_char c :: nat in (48 \<le> n \<and> n \<le> 57) \<or> n = 178 \<or> n = 179 \<or> n = 185)"

text \<open>\<^verbatim>\<open>s.strip()\<close>, \<^verbatim>\<open>s.isdigit()\<close>, \<^verbatim>\<open>s.zfill(w)\<close> and \<^verbatim>\<open>s.ljust(w, c)\<close>.\<close>

definition py_strip :: "string \<Rightarrow> string" where
  "py_strip s = rev (dropWhile py_isspace (rev (dropWhile py_isspace s)))"

definition str_isdigit :: "string \<Rightarrow> bool" where
  "str_isdigit s = (s \<noteq> [] \<and> list_all py_isdigit s)"

definition zfill :: "nat \<Rightarrow> string \<Rightarrow> string" where
  "zfill w s =
     (if w \<le> length s then s
      else (case s of
              c # cs \<Rightarrow>
                if c = CHR ''+'' \<or> c = CHR ''-''
                then c # replicate (w - length s) CHR ''0'' @ cs
                else replicate (w - length s) CHR ''0'' @ s
            | [] \<Rightarrow> replicate w CHR ''0''))"

definition ljust :: "nat \<Rightarrow> char \<Rightarrow> string \<Rightarrow> string" where
  "ljust w c s = s @ replicate (w - length s) c"

fun preserve_8char_code :: "cell \<Rightarrow> string" where
  "preserve_8char_code PyNaN = []"
| "preserve_8char_code (PyStr code) =
     (let code_str = py_strip code
      in if str_isdigit code_str then zfill 8 code_str
         else if length code_str < 8 then ljust 8 CHR ''0'' code_str
         else if 8 < length code_str then take 8 code_str
         else code_str)"

text \<open>A string is trimmed when it neither starts nor ends with whitespace.\<close>

definition trimmed :: "string \<Rightarrow> bool" where
  "trimmed xs = (xs = [] \<or> (\<not> py_isspace (hd xs) \<and> \<not> py_isspace (last xs)))"

section \<open>Formula tables and their transforms\<close>

text \<open>
  A formula table is a data frame with the columns \<^verbatim>\<open>FG Code\<close>, \<^verbatim>\<open>RM Code\<close> and
  \<^verbatim>\<open>Quantity\<close>; a table is the list of its rows, and \<^verbatim>\<open>df.empty\<close> is \<open>rows = []\<close>.
  The loaders store codes already passed through \<open>preserve_8char_code\<close>, so the code
  columns hold strings.
\<close>

record formula_row =
  fg_code :: string
  rm_code :: string
  quantity :: rat

text \<open>
  \<^verbatim>\<open>df.groupby(['FG Code', 'RM Code'])['Quantity'].sum().reset_index()\<close>: one row for
  each distinct key, the keys in ascending order, the quantities of a group added up
  from \<^verbatim>\<open>0.0\<close> in row order.  (pandas carries a compensation term from one addition
  to the next; it has no effect on a group of one or two rows and none with exact
  arithmetic.)
\<close>

definition group_sum :: "arith \<Rightarrow> rat list \<Rightarrow> rat" where
  "group_sum ar qs = foldl (fadd ar) 0 qs"

definition group_key :: "formula_row \<Rightarrow> string \<times> string" where
  "group_key row = (fg_code row, rm_code row)"

definition groupby_sum :: "arith \<Rightarrow> formula_row list \<Rightarrow> formula_row list" where
  "groupby_sum ar rows =
     map (\<lambda>k. \<lparr>fg_code = fst k, rm_code = snd k,
               quantity = group_sum ar (map quantity (filter (\<lambda>row. group_key row = k) rows))\<rparr>)
         (sort (remdups (map group_key rows)))"

subsection \<open>Replacement\<close>





subsection \<open>Dilution\<close>

record dilution_rule =
  dil_rm_code :: string
  component_rm_code :: string
  percentage :: rat

text \<open>The quantity of one component: the body of the inner loop of
  \<^verbatim>\<open>apply_dilution_rules\<close>.\<close>

definition component_quantity :: "arith \<Rightarrow> rat \<Rightarrow> rat \<Rightarrow> rat" where
  "component_quantity ar qty pct =
     (let component_qty = fmul ar qty (fdiv ar pct 100);
          component_qty = (if \<bar>component_qty\<bar> < float_lit ar (5 / 100000)
                           then float_lit ar (1 / 10000) else component_qty)
      in py_round ar component_qty 4)"

definition dilute_row :: "arith \<Rightarrow> dilution_rule list \<Rightarrow> formula_row \<Rightarrow> formula_row list" where
  "dilute_row ar rm_dilution_rules formula_row =
     (let rm = preserve_8char_code (PyStr (rm_code formula_row));
          dilution_components = filter (\<lambda>d. dil_rm_code d = rm) rm_dilution_rules
      in if dilution_components = []
         then [\<lparr>fg_code = fg_code formula_row, rm_code = rm, quantity = quantity formula_row\<rparr>]
         else map (\<lambda>d. \<lparr>fg_code = fg_code formula_row,
                         rm_code = preserve_8char_code (PyStr (component_rm_code d)),
                         quantity = component_quantity ar (quantity formula_row) (percentage d)\<rparr>)
                  dilution_components)"

definition apply_dilution_rules ::
  "arith \<Rightarrow> dilution_rule list \<Rightarrow> formula_row list \<Rightarrow> formula_row list" where
  "apply_dilution_rules ar rm_dilution_rules formulas_df =
     (if rm_dilution_rules = [] then formulas_df
      else
        (let diluted_formulas = concat (map (dilute_row ar rm_dilution_rules) formulas_df)
         in if diluted_formulas \<noteq> [] then groupby_sum ar diluted_formulas
            else diluted_formulas))"

section \<open>The allocation engine\<close>

text \<open>
  The body of the \<^verbatim>\<open>Generate Production Analysis\<close> branch of the production planning
  tab.  A stock dictionary maps an RM code to the quantity on hand.
\<close>

type_synonym stock = "string \<rightharpoonup> rat"

record stock_row =
  stock_rm_code :: string
  stock_quantity :: rat

text \<open>
  \<^verbatim>\<open>rm_stock.set_index('RM Code')['Quantity'].to_dict()\<close>, every value rounded to
  \<^verbatim>\<open>decimal_places\<close>: for a code listed twice the later row wins.
\<close>

definition stock_dict :: "arith \<Rightarrow> nat \<Rightarrow> stock_row list \<Rightarrow> stock" where
  "stock_dict ar decimal_places rm_stock =
     map_of (rev (map (\<lambda>r. (stock_rm_code r, py_round ar (stock_quantity r) decimal_places))
                      rm_stock))"

text \<open>\<^verbatim>\<open>d.get(rm, 0)\<close>\<close>

definition get0 :: "stock \<Rightarrow> string \<Rightarrow> rat" where
  "get0 d rm = (case d rm of None \<Rightarrow> 0 | Some v \<Rightarrow> v)"

text \<open>The two status labels, \<^verbatim>\<open>U+2705\<close> and \<^verbatim>\<open>U+274C\<close> in UTF-8.\<close>

definition status_ready :: string where
  "status_ready = [CHR 0xE2, CHR 0x9C, CHR 0x85] @ '' Ready''"

definition status_shortage :: string where
  "status_shortage = [CHR 0xE2, CHR 0x9D, CHR 0x8C] @ '' Shortage''"

text \<open>\<^verbatim>\<open>min(xs) if xs else 0\<close>\<close>

definition min_or_zero :: "int list \<Rightarrow> int" where
  "min_or_zero xs = (case xs of [] \<Rightarrow> 0 | x # ys \<Rightarrow> fold min ys x)"

subsection \<open>The maximum-capacity pass\<close>

text \<open>One iteration of the first loop over the formula: the entry appended to
  \<^verbatim>\<open>max_possible_batches_list\<close>.  (The list \<^verbatim>\<open>max_shortage_breakdown\<close> built
  beside it is never read.)\<close>

definition max_row :: "arith \<Rightarrow> nat \<Rightarrow> stock \<Rightarrow> formula_row \<Rightarrow> py_error + int" where
  "max_row ar decimal_places initial_stock row =
     (let rm = preserve_8char_code (PyStr (rm_code row));
          req_per_batch = py_round ar (quantity row) decimal_places;
          avail = get0 initial_stock rm
      in if req_per_batch \<le> 0 \<or> avail \<le> 0 then Inr 0
         else (case float_floordiv ar avail req_per_batch of
                 Inl e \<Rightarrow> Inl e
               | Inr d \<Rightarrow> Inr (py_int d)))"

text \<open>Running a loop body over the rows; the first error ends the loop.\<close>

fun map_rows :: "('a \<Rightarrow> py_error + 'b) \<Rightarrow> 'a list \<Rightarrow> py_error + 'b list" where
  "map_rows f [] = Inr []"
| "map_rows f (x # xs) =
     (case f x of
        Inl e \<Rightarrow> Inl e
      | Inr y \<Rightarrow> (case map_rows f xs of Inl e \<Rightarrow> Inl e | Inr ys \<Rightarrow> Inr (y # ys)))"

subsection \<open>The actual-capacity pass\<close>

text \<open>
  What one formula row appends: its entry of \<^verbatim>\<open>possible_batches\<close>, and what it adds
  to \<^verbatim>\<open>missing_rms\<close> and to \<^verbatim>\<open>shortage_breakdown\<close> (nothing or one element each).
\<close>

record row_outcome =
  batches :: int
  missing :: "string list"
  breakdown :: "string list"

definition expected_batches_of :: "arith \<Rightarrow> rat \<Rightarrow> py_error + int" where
  "expected_batches_of ar expected_capacity =
     (case float_floordiv ar expected_capacity 25 of
        Inl e \<Rightarrow> Inl e
      | Inr d \<Rightarrow> Inr (max 1 (py_int d)))"

definition expected_row ::
  "arith \<Rightarrow> nat \<Rightarrow> stock \<Rightarrow> int \<Rightarrow> formula_row \<Rightarrow> py_error + row_outcome" where
  "expected_row ar decimal_places allocated_stock expected_batches row =
     (let rm = preserve_8char_code (PyStr (rm_code row));
          req_per_batch = py_round ar (quantity row) decimal_places;
          avail = get0 allocated_stock rm;
          total_required = fmul ar req_per_batch (float_of_int ar expected_batches)
      in if total_required \<le> 0 then
           Inr \<lparr>batches = 0, missing = [],
                breakdown = [rm @ '': Invalid requirement ('' @
                             format_f req_per_batch decimal_places @ '' Kg per batch)'']\<rparr>
         else if avail \<le> 0 then
           Inr \<lparr>batches = 0, missing = [rm],
                breakdown = [rm @ '': Required '' @ format_f total_required decimal_places @
                             '' Kg, Available 0.0000 Kg'']\<rparr>
         else if total_required \<le> avail then
           Inr \<lparr>batches = expected_batches, missing = [], breakdown = []\<rparr>
         else
           (case float_floordiv ar avail req_per_batch of
              Inl e \<Rightarrow> Inl e
            | Inr d \<Rightarrow>
                (let max_batches_for_rm = py_int d
                 in if max_batches_for_rm < expected_batches then
                      Inr \<lparr>batches = max_batches_for_rm, missing = [rm],
                           breakdown =
                             [rm @ '': Required '' @ format_f total_required decimal_places @
                              '' Kg for '' @ str_int expected_batches @ '' batches, Available '' @
                              format_f avail decimal_places @ '' Kg, Shortage '' @
                              format_f (fsub ar total_required avail) decimal_places @ '' Kg'']\<rparr>
                    else Inr \<lparr>batches = max_batches_for_rm, missing = [], breakdown = []\<rparr>)))"

definition auto_row :: "arith \<Rightarrow> nat \<Rightarrow> stock \<Rightarrow> formula_row \<Rightarrow> py_error + row_outcome" where
  "auto_row ar decimal_places allocated_stock row =
     (let rm = preserve_8char_code (PyStr (rm_code row));
          req_per_batch = py_round ar (quantity row) decimal_places;
          avail = get0 allocated_stock rm
      in if req_per_batch \<le> 0 then
           Inr \<lparr>batches = 0, missing = [],
                breakdown = [rm @ '': Invalid requirement ('' @
                             format_f req_per_batch decimal_places @ '' Kg)'']\<rparr>
         else if avail \<le> 0 then
           Inr \<lparr>batches = 0, missing = [rm],
                breakdown = [rm @ '': Required '' @ format_f req_per_batch decimal_places @
                             '' Kg per batch, Available 0.0000 Kg'']\<rparr>
         else
           (case float_floordiv ar avail req_per_batch of
              Inl e \<Rightarrow> Inl e
            | Inr d \<Rightarrow>
                (let max_batches_for_rm = py_int d
                 in if max_batches_for_rm = 0 then
                      Inr \<lparr>batches = max_batches_for_rm, missing = [rm],
                           breakdown =
                             [rm @ '': Required '' @ format_f req_per_batch decimal_places @
                              '' Kg per batch, Available '' @ format_f avail decimal_places @
                              '' Kg, Shortage '' @
                              format_f (fsub ar req_per_batch avail) decimal_places @ '' Kg'']\<rparr>
                    else Inr \<lparr>batches = max_batches_for_rm, missing = [], breakdown = []\<rparr>)))"

subsection \<open>Depletion\<close>

text \<open>The loop under \<^verbatim>\<open># Allocate stock for production\<close>; it multiplies the
  unrounded \<^verbatim>\<open>row['Quantity']\<close> and skips codes that are not stocked.\<close>

fun deplete :: "arith \<Rightarrow> nat \<Rightarrow> int \<Rightarrow> formula_row list \<Rightarrow> stock \<Rightarrow> stock" where
  "deplete ar decimal_places actual_batches [] allocated_stock = allocated_stock"
| "deplete ar decimal_places actual_batches (row # rows) allocated_stock =
     (let rm = preserve_8char_code (PyStr (rm_code row));
          req_total = py_round ar (fmul ar (quantity row) (float_of_int ar actual_batches))
                        decimal_places
      in deplete ar decimal_places actual_batches rows
           (case allocated_stock rm of
              None \<Rightarrow> allocated_stock
            | Some a \<Rightarrow> allocated_stock(rm \<mapsto> py_round ar (fsub ar a req_total) decimal_places)))"

subsection \<open>One finished good\<close>

text \<open>The values the loop body computes for one FG, before they are formatted.\<close>

record fg_calc =
  calc_fg :: string
  calc_expected_capacity :: rat
  max_capacity :: int
  actual_capacity :: int
  actual_batches :: int
  status :: string
  missing_rms :: "string list"
  shortage_breakdown :: "string list"

definition actual_pass ::
  "arith \<Rightarrow> nat \<Rightarrow> stock \<Rightarrow> rat \<Rightarrow> formula_row list \<Rightarrow> py_error + (int \<times> row_outcome list)" where
  "actual_pass ar decimal_places allocated_stock expected_capacity formula =
     (if 0 < expected_capacity then
        (case expected_batches_of ar expected_capacity of
           Inl e \<Rightarrow> Inl e
         | Inr expected_batches \<Rightarrow>
             (case map_rows (expected_row ar decimal_places allocated_stock expected_batches) formula of
                Inl e \<Rightarrow> Inl e
              | Inr outs \<Rightarrow> Inr (min expected_batches (min_or_zero (map batches outs)), outs)))
      else
        (case map_rows (auto_row ar decimal_places allocated_stock) formula of
           Inl e \<Rightarrow> Inl e
         | Inr outs \<Rightarrow> Inr (min_or_zero (map batches outs), outs)))"

definition process_fg ::
  "arith \<Rightarrow> nat \<Rightarrow> stock \<Rightarrow> rat \<Rightarrow> string \<Rightarrow> formula_row list \<Rightarrow> stock
     \<Rightarrow> py_error + (fg_calc \<times> stock)" where
  "process_fg ar decimal_places initial_stock expected_capacity fg formula allocated_stock =
     (case map_rows (max_row ar decimal_places initial_stock) formula of
        Inl e \<Rightarrow> Inl e
      | Inr max_possible_batches_list \<Rightarrow>
          (case actual_pass ar decimal_places allocated_stock expected_capacity formula of
             Inl e \<Rightarrow> Inl e
           | Inr (batches_now, outs) \<Rightarrow>
               (let max_possible_batches = min_or_zero max_possible_batches_list;
                    capacity_now = batches_now * 25;
                    status_now = (if 25 \<le> capacity_now then status_ready else status_shortage)
                in Inr (\<lparr>calc_fg = fg,
                          calc_expected_capacity = expected_capacity,
                          max_capacity = max_possible_batches * 25,
                          actual_capacity = capacity_now,
                          actual_batches = batches_now,
                          status = status_now,
                          missing_rms = concat (map missing outs),
                          shortage_breakdown = concat (map breakdown outs)\<rparr>,
                        if 0 < batches_now \<and> status_now = status_ready
                        then deplete ar decimal_places batches_now formula allocated_stock
                        else allocated_stock))))"

subsection \<open>The loop over the FIFO order\<close>

text \<open>\<^verbatim>\<open>fg_expected_capacity.get(fg, 0)\<close>\<close>

definition expected_capacity_of :: "(string \<rightharpoonup> rat) \<Rightarrow> string \<Rightarrow> rat" where
  "expected_capacity_of fg_expected_capacity fg =
     (case fg_expected_capacity fg of None \<Rightarrow> 0 | Some c \<Rightarrow> c)"

fun allocation_loop ::
  "arith \<Rightarrow> nat \<Rightarrow> formula_row list \<Rightarrow> (string \<rightharpoonup> rat) \<Rightarrow> stock \<Rightarrow> string list \<Rightarrow> stock
     \<Rightarrow> py_error + (fg_calc list \<times> stock)" where
  "allocation_loop ar decimal_places formulas_to_use fg_expected_capacity initial_stock []
     allocated_stock = Inr ([], allocated_stock)"
| "allocation_loop ar decimal_places formulas_to_use fg_expected_capacity initial_stock (fg # fgs)
     allocated_stock =
     (let formula = filter (\<lambda>row. fg_code row = fg) formulas_to_use
      in if formula = [] then
           allocation_loop ar decimal_places formulas_to_use fg_expected_capacity initial_stock fgs
             allocated_stock
         else
           (case process_fg ar decimal_places initial_stock
                   (expected_capacity_of fg_expected_capacity fg) fg formula allocated_stock of
              Inl e \<Rightarrow> Inl e
            | Inr (calc, allocated_stock') \<Rightarrow>
                (case allocation_loop ar decimal_places formulas_to_use fg_expected_capacity
                        initial_stock fgs allocated_stock' of
                   Inl e \<Rightarrow> Inl e
                 | Inr (calcs, final_stock) \<Rightarrow> Inr (calc # calcs, final_stock))))"

text \<open>The modified formulas are used when there are any, the original ones otherwise.\<close>

definition formulas_to_use_of :: "formula_row list \<Rightarrow> formula_row list \<Rightarrow> formula_row list" where
  "formulas_to_use_of modified_fg_formulas fg_formulas =
     (if modified_fg_formulas \<noteq> [] then modified_fg_formulas else fg_formulas)"

definition production_analysis ::
  "arith \<Rightarrow> nat \<Rightarrow> stock_row list \<Rightarrow> formula_row list \<Rightarrow> (string \<rightharpoonup> rat) \<Rightarrow> string list
     \<Rightarrow> py_error + (fg_calc list \<times> stock)" where
  "production_analysis ar decimal_places rm_stock formulas_to_use fg_expected_capacity
     fg_analysis_order =
     (let initial_stock = stock_dict ar decimal_places rm_stock;
          allocated_stock = stock_dict ar decimal_places rm_stock
      in allocation_loop ar decimal_places formulas_to_use fg_expected_capacity initial_stock
           fg_analysis_order allocated_stock)"

subsection \<open>The emitted records\<close>

text \<open>The dictionary appended to \<^verbatim>\<open>results\<close>, and the entry of \<^verbatim>\<open>shortage_details\<close>.\<close>

record allocation_result =
  res_fg :: string
  res_expected :: string
  res_max :: string
  res_actual :: string
  res_status :: string
  res_missing :: string
  res_batches :: int

definition result_of :: "arith \<Rightarrow> fg_calc \<Rightarrow> allocation_result" where
  "result_of ar c =
     \<lparr>res_fg = calc_fg c,
      res_expected = (if 0 < calc_expected_capacity c
                      then format_fixed True (calc_expected_capacity c) 1 @ '' Kg'' else ''Auto''),
      res_max = format_fixed True (float_of_int ar (max_capacity c)) 1 @ '' Kg'',
      res_actual = format_fixed True (float_of_int ar (actual_capacity c)) 1 @ '' Kg'',
      res_status = status c,
      res_missing = (if missing_rms c \<noteq> []
                     then str_int (int (length (missing_rms c))) @ '' RM(s)'' else ''None''),
      res_batches = actual_batches c\<rparr>"

definition results_of :: "arith \<Rightarrow> fg_calc list \<Rightarrow> allocation_result list" where
  "results_of ar calcs = map (result_of ar) calcs"

definition shortage_details_of :: "fg_calc list \<Rightarrow> (string \<times> string list) list" where
  "shortage_details_of calcs = map (\<lambda>c. (calc_fg c, shortage_breakdown c)) calcs"

section \<open>The maximum capacity as the specification words it\<close>

text \<open>
  The specification's max-capacity pass: for every formula row the floor quotient of
  the initial stock of the row's RM by the quantity per batch when both are positive,
  and 0 otherwise; the minimum over the rows (0 for no rows); times 25.  The quantity per
  batch is the rounded one, the quotient is the value of \<^verbatim>\<open>//\<close>, and an RM
  without stock has 0 on hand.
\<close>

definition spec_row_batches :: "arith \<Rightarrow> nat \<Rightarrow> stock \<Rightarrow> formula_row \<Rightarrow> int" where
  "spec_row_batches ar decimal_places initial row =
     (let qty_per_batch = py_round ar (quantity row) decimal_places;
          on_hand = get0 initial (preserve_8char_code (PyStr (rm_code row)))
      in if 0 < qty_per_batch \<and> 0 < on_hand
         then py_int (floordiv_value ar on_hand qty_per_batch) else 0)"

definition spec_max_capacity :: "arith \<Rightarrow> nat \<Rightarrow> stock \<Rightarrow> formula_row list \<Rightarrow> int" where
  "spec_max_capacity ar decimal_places initial formula =
     (if formula = [] then 0
      else Min (set (map (spec_row_batches ar decimal_places initial) formula))) * 25"

text \<open>The rows of one finished good, and the finished goods that get a result.\<close>

definition formula_of :: "formula_row list \<Rightarrow> string \<Rightarrow> formula_row list" where
  "formula_of formulas_to_use fg = filter (\<lambda>row. fg_code row = fg) formulas_to_use"

definition reported_fgs :: "formula_row list \<Rightarrow> string list \<Rightarrow> string list" where
  "reported_fgs formulas_to_use fg_analysis_order =
     filter (\<lambda>fg. formula_of formulas_to_use fg \<noteq> []) fg_analysis_order"

section \<open>The invariant of the allocated pool\<close>

text \<open>The allocated pool lies below the initial stock, key by key.\<close>

definition pool_below :: "stock \<Rightarrow> stock \<Rightarrow> bool" where
  "pool_below allocated initial = (\<forall>rm. rel_option (\<le>) (allocated rm) (initial rm))"

text \<open>Every quantity of the initial stock has at most \<open>dp\<close> decimal places.\<close>

definition rounded_stock :: "nat \<Rightarrow> stock \<Rightarrow> bool" where
  "rounded_stock dp initial = (\<forall>rm v. initial rm = Some v \<longrightarrow> py_round Exact v dp = v)"

section \<open>Example inputs\<close>

text \<open>
  Two finished goods that each need 30 kg of the same raw material per batch, and a
  stock of 30 kg of it.  The codes are in their normalized 8-character form.
\<close>

definition fifo_stock :: "stock_row list" where
  "fifo_stock = [\<lparr>stock_rm_code = ''RM_X0000'', stock_quantity = 30\<rparr>]"

definition fifo_formulas :: "formula_row list" where
  "fifo_formulas =
     [\<lparr>fg_code = ''FG100000'', rm_code = ''RM_X0000'', quantity = 30\<rparr>,
      \<lparr>fg_code = ''FG200000'', rm_code = ''RM_X0000'', quantity = 30\<rparr>]"

text \<open>
  One finished good that needs \<^verbatim>\<open>0.1\<close> kg of a raw material per batch, a stock of
  \<^verbatim>\<open>1.0\<close> kg of it, and an expected capacity of \<^verbatim>\<open>250.0\<close> kg.
\<close>

definition tenth_stock :: "stock_row list" where
  "tenth_stock = [\<lparr>stock_rm_code = ''RM000001'', stock_quantity = 1\<rparr>]"

definition tenth_formulas :: "arith \<Rightarrow> formula_row list" where
  "tenth_formulas ar =
     [\<lparr>fg_code = ''FG000001'', rm_code = ''RM000001'', quantity = float_lit ar (1 / 10)\<rparr>]"

definition tenth_expected :: "string \<rightharpoonup> rat" where
  "tenth_expected = [''FG000001'' \<mapsto> 250]"

text \<open>
  A formula with \<^verbatim>\<open>0.001\<close> kg of RM_A, and a dilution rule that gives 1 percent of
  RM_A to the component RM_C.
\<close>

definition dilution_formulas :: "arith \<Rightarrow> formula_row list" where
  "dilution_formulas ar =
     [\<lparr>fg_code = ''FG100000'', rm_code = ''RM_A0000'', quantity = float_lit ar (1 / 1000)\<rparr>]"

definition dilution_rules :: "dilution_rule list" where
  "dilution_rules =
     [\<lparr>dil_rm_code = ''RM_A0000'', component_rm_code = ''RM_C0000'', percentage = 1\<rparr>]"



section \<open>Evaluating the model on concrete inputs\<close>

text \<open>
  The recursive functions on numbers unfold on numerals only, and the floor and the
  ceiling of a quotient of numerals are computed by integer division.
\<close>

declare bit_length.simps [simp del] str_nat.simps [simp del] group3.simps [simp del]

lemma floor_rat_numeral [simp]:
  "\<lfloor>numeral a / numeral b :: rat\<rfloor> = numeral a div numeral b"
  using floor_divide_of_int_eq [of "numeral a" "numeral b", where ?'a = rat] by simp

lemma floor_rat_neg_numeral [simp]:
  "\<lfloor>- (numeral a / numeral b) :: rat\<rfloor> = - numeral a div numeral b"
  using floor_divide_of_int_eq [of "- numeral a" "numeral b", where ?'a = rat] by simp

lemma ceiling_rat_numeral [simp]:
  "\<lceil>numeral a / numeral b :: rat\<rceil> = - (- numeral a div numeral b)"
  using ceiling_divide_eq_div [of "numeral a" "numeral b", where ?'a = rat] by simp

lemma ceiling_rat_neg_numeral [simp]:
  "\<lceil>- (numeral a / numeral b) :: rat\<rceil> = - (numeral a div numeral b)"
  using ceiling_divide_eq_div [of "- numeral a" "numeral b", where ?'a = rat] by simp

lemma bit_length_0 [simp]: "bit_length 0 = 0"
  by (simp add: bit_length.simps)

lemma bit_length_1 [simp]: "bit_length (Suc 0) = 1" "bit_length 1 = 1"
  by (simp_all add: bit_length.simps)

lemma bit_length_numeral [simp]:
  "bit_length (numeral k) = bit_length (numeral k div 2) + 1"
  by (subst bit_length.simps) simp

lemma str_nat_0 [simp]: "str_nat 0 = ''0''" "str_nat 1 = ''1''" "str_nat (Suc 0) = ''1''"
  by (simp_all add: str_nat.simps digit_char_def)

lemma str_nat_numeral [simp]:
  "str_nat (numeral k) =
     (if (numeral k :: nat) < 10 then [digit_char (numeral k)]
      else str_nat (numeral k div 10) @ [digit_char (numeral k mod 10)])"
  by (rule str_nat.simps)

lemma group3_Nil [simp]: "group3 [] = []"
  by (simp add: group3.simps)

lemma group3_Cons [simp]:
  "group3 (c # cs) =
     (if length cs \<le> 2 then c # cs
      else group3 (take (length cs - 2) (c # cs)) @ CHR '','' # drop (length cs - 2) (c # cs))"
  by (subst group3.simps) (simp add: Suc_diff_le)

lemma replicate_numeral [simp]:
  "replicate (numeral k) x = x # replicate (pred_numeral k) x"
  by (simp add: numeral_eq_Suc)

lemmas b64_eval = b64_def ilog2_def pow2_def round_half_even_def Let_def

lemmas float_eval = float_lit_def float_of_int_def fadd_def fsub_def fmul_def fdiv_def
  py_int_def py_round_def floordiv_value_def float_floordiv_def

lemmas format_eval = digit_char_def str_int_def pad_digits_def format_fixed_def

lemmas norm_eval = preserve_8char_code.simps(2) py_strip_def py_isspace_def py_isdigit_def
  str_isdigit_def zfill_def ljust_def

lemmas engine_eval = stock_dict_def get0_def min_or_zero_def max_row_def expected_batches_of_def
  expected_row_def auto_row_def actual_pass_def process_fg_def expected_capacity_of_def
  production_analysis_def status_ready_def status_shortage_def

section \<open>The code normalizer\<close>

lemma py_isdigit_not_space: "py_isdigit c \<Longrightarrow> \<not> py_isspace c"
  by (auto simp: py_isdigit_def py_isspace_def Let_def)

lemma zero_char [simp]: "\<not> py_isspace CHR ''0''" "py_isdigit CHR ''0''"
  by (simp_all add: py_isdigit_def py_isspace_def)

lemma sign_not_digit [simp]: "\<not> py_isdigit CHR ''+''" "\<not> py_isdigit CHR ''-''"
  by (simp_all add: py_isdigit_def)

lemma py_strip_Nil [simp]: "py_strip [] = []"
  by (simp add: py_strip_def)

lemma py_strip_trimmed: "trimmed (py_strip s)"
proof (cases "py_strip s = []")
  case True
  then show ?thesis by (simp add: trimmed_def)
next
  case False
  let ?t = "dropWhile py_isspace s"
  let ?u = "dropWhile py_isspace (rev ?t)"
  from False have u: "?u \<noteq> []" by (simp add: py_strip_def)
  have t: "?t \<noteq> []"
  proof
    assume "?t = []"
    then have "?u = []" by (simp only: rev.simps(1) dropWhile.simps(1))
    with u show False by contradiction
  qed
  have ht: "\<not> py_isspace (hd ?t)" using t by (rule hd_dropWhile)
  have hu: "\<not> py_isspace (hd ?u)" using u by (rule hd_dropWhile)
  have "hd ?t \<in> set (rev ?t)" using t by simp
  then have "last ?u = last (rev ?t)" using ht by (rule dropWhile_last)
  then have "last ?u = hd ?t" using t by (simp add: last_rev)
  then have "hd (py_strip s) = hd ?t" using u by (simp add: py_strip_def hd_rev)
  moreover have "last (py_strip s) = hd ?u" using u by (simp add: py_strip_def last_rev)
  ultimately show ?thesis using ht hu by (simp add: trimmed_def)
qed

lemma py_strip_id: "trimmed xs \<Longrightarrow> py_strip xs = xs"
proof (cases "xs = []")
  case True
  then show ?thesis by simp
next
  case False
  assume "trimmed xs"
  with False have h: "\<not> py_isspace (hd xs)" and l: "\<not> py_isspace (last xs)"
    by (simp_all add: trimmed_def)
  have 1: "dropWhile py_isspace xs = xs" using h by (simp add: dropWhile_eq_self_iff)
  have "hd (rev xs) = last xs" using False by (simp add: hd_rev)
  then have 2: "dropWhile py_isspace (rev xs) = rev xs"
    using l by (simp add: dropWhile_eq_self_iff)
  show ?thesis by (simp add: py_strip_def 1 2)
qed

lemma py_strip_length: "length (py_strip s) \<le> length s"
proof -
  have "length (py_strip s) \<le> length (dropWhile py_isspace s)"
    unfolding py_strip_def length_rev
    by (rule order_trans [OF length_dropWhile_le]) simp
  also have "\<dots> \<le> length s" by (rule length_dropWhile_le)
  finally show ?thesis .
qed

lemma dropWhile_same_length:
  "length (dropWhile P ys) = length ys \<Longrightarrow> dropWhile P ys = ys"
proof (cases ys)
  case Nil
  then show ?thesis by simp
next
  case (Cons y ys')
  assume "length (dropWhile P ys) = length ys"
  then show ?thesis
    using Cons length_dropWhile_le [of P ys'] by (simp split: if_splits)
qed

lemma py_strip_shorter:
  assumes "xs \<noteq> []" "py_isspace (last xs)"
  shows "length (py_strip xs) < length xs"
proof -
  let ?t = "dropWhile py_isspace xs"
  show ?thesis
  proof (cases "?t = []")
    case True
    then have "py_strip xs = []"
      unfolding py_strip_def by (simp only: rev.simps(1) dropWhile.simps(1))
    then show ?thesis using assms(1) by simp
  next
    case False
    then have "last ?t = last xs"
      by (metis last_appendR takeWhile_dropWhile_id)
    then have "py_isspace (hd (rev ?t))" using False assms by (simp add: hd_rev)
    then have "dropWhile py_isspace (rev ?t) \<noteq> rev ?t"
      using False by (simp add: dropWhile_eq_self_iff)
    moreover have "length (dropWhile py_isspace (rev ?t)) \<le> length (rev ?t)"
      by (rule length_dropWhile_le)
    ultimately have "length (dropWhile py_isspace (rev ?t)) < length (rev ?t)"
      using dropWhile_same_length [of py_isspace "rev ?t"] by linarith
    then have "length (py_strip xs) < length ?t" by (simp add: py_strip_def)
    also have "\<dots> \<le> length xs" by (rule length_dropWhile_le)
    finally show ?thesis .
  qed
qed

lemma zfill_digits:
  "str_isdigit t \<Longrightarrow> zfill 8 t = replicate (8 - length t) CHR ''0'' @ t"
  by (cases t) (auto simp: zfill_def str_isdigit_def)

lemma preserve_8char_code_cases:
  "preserve_8char_code (PyStr s) =
     (let t = py_strip s
      in if str_isdigit t then replicate (8 - length t) CHR ''0'' @ t
         else if length t < 8 then t @ replicate (8 - length t) CHR ''0''
         else take 8 t)"
  by (simp add: Let_def zfill_digits ljust_def del: replicate_numeral)

declare preserve_8char_code.simps(2) [simp del]

lemma str_isdigit_zeros:
  "str_isdigit t \<Longrightarrow> str_isdigit (replicate n CHR ''0'' @ t)"
  by (auto simp: str_isdigit_def list_all_iff)

lemma str_isdigit_last: "str_isdigit t \<Longrightarrow> \<not> py_isspace (last t)"
  by (simp add: str_isdigit_def list_all_iff py_isdigit_not_space)

lemma str_isdigit_hd: "str_isdigit t \<Longrightarrow> \<not> py_isspace (hd t)"
  by (simp add: str_isdigit_def list_all_iff py_isdigit_not_space)

lemma preserve_length: "8 \<le> length (preserve_8char_code (PyStr s))"
  by (simp add: preserve_8char_code_cases Let_def)

lemma preserve_length_8:
  "\<not> str_isdigit (py_strip s) \<Longrightarrow> length (preserve_8char_code (PyStr s)) = 8"
  by (simp add: preserve_8char_code_cases Let_def)

lemma preserve_digits:
  "str_isdigit (py_strip s) \<Longrightarrow> str_isdigit (preserve_8char_code (PyStr s))"
  by (simp add: preserve_8char_code_cases Let_def str_isdigit_zeros)

lemma preserve_hd: "\<not> py_isspace (hd (preserve_8char_code (PyStr s)))"
proof -
  let ?t = "py_strip s"
  have tr: "trimmed ?t" by (rule py_strip_trimmed)
  show ?thesis
  proof (cases "str_isdigit ?t")
    case True
    then show ?thesis by (rule str_isdigit_hd [OF preserve_digits])
  next
    case False
    show ?thesis
    proof (cases "?t = []")
      case True
      then show ?thesis using False by (simp add: preserve_8char_code_cases Let_def)
    next
      case ne: False
      then have "\<not> py_isspace (hd ?t)" using tr by (simp add: trimmed_def)
      then show ?thesis using False ne
        by (simp add: preserve_8char_code_cases Let_def hd_append)
    qed
  qed
qed

lemma preserve_last:
  assumes "str_isdigit (py_strip z) \<or> length (py_strip z) \<le> 8"
  shows "\<not> py_isspace (last (preserve_8char_code (PyStr z)))"
proof -
  let ?t = "py_strip z"
  have tr: "trimmed ?t" by (rule py_strip_trimmed)
  show ?thesis
  proof (cases "str_isdigit ?t")
    case True
    then show ?thesis by (rule str_isdigit_last [OF preserve_digits])
  next
    case False
    with assms have le: "length ?t \<le> 8" by simp
    show ?thesis
    proof (cases "length ?t < 8")
      case True
      then show ?thesis using False by (simp add: preserve_8char_code_cases Let_def)
    next
      case F: False
      with le have "length ?t = 8" by simp
      moreover from this have "?t \<noteq> []" by auto
      ultimately show ?thesis using False tr
        by (simp add: preserve_8char_code_cases Let_def trimmed_def)
    qed
  qed
qed

lemma preserve_fixed:
  assumes "trimmed y" "8 \<le> length y" "str_isdigit y \<or> length y = 8"
  shows "preserve_8char_code (PyStr y) = y"
  using assms by (auto simp: preserve_8char_code_cases Let_def py_strip_id)

text \<open>
  Claim C8, as the code has it.  A missing value gives the empty string.  A string that
  holds a character other than whitespace is trimmed of whitespace at both ends; if
  what is left is all digits it is padded on the left with \<open>0\<close> to width 8, and left as
  it is when it already has 8 digits or more; any other string is padded on the right
  with \<open>0\<close> to width 8 or cut to its first 8 characters.  So \<open>7\<close> gives \<open>00000007\<close>,
  \<open>AB1\<close> gives \<open>AB100000\<close>, \<open>ABCDEFGHI\<close> gives \<open>ABCDEFGH\<close>, and nine digits stay nine
  digits.
\<close>

theorem preserve_8char_code_rules:
  "preserve_8char_code PyNaN = [] \<and>
   (py_strip s \<noteq> [] \<longrightarrow>
      preserve_8char_code (PyStr s) =
        (let t = py_strip s
         in if str_isdigit t then replicate (8 - length t) CHR ''0'' @ t
            else if length t < 8 then t @ replicate (8 - length t) CHR ''0''
            else take 8 t)) \<and>
   preserve_8char_code (PyStr ''7'') = ''00000007'' \<and>
   preserve_8char_code (PyStr ''AB1'') = ''AB100000'' \<and>
   preserve_8char_code (PyStr ''ABCDEFGHI'') = ''ABCDEFGH'' \<and>
   preserve_8char_code (PyStr ''123456789'') = ''123456789'' \<and>
   preserve_8char_code (PyStr '' 12 '') = ''00000012''"
proof -
  have "preserve_8char_code (PyStr ''7'') = ''00000007''"
    and "preserve_8char_code (PyStr ''AB1'') = ''AB100000''"
    and "preserve_8char_code (PyStr ''ABCDEFGHI'') = ''ABCDEFGH''"
    and "preserve_8char_code (PyStr ''123456789'') = ''123456789''"
    and "preserve_8char_code (PyStr '' 12 '') = ''00000012''"
    by (simp_all add: norm_eval)
  then show ?thesis
    using preserve_8char_code_cases [of s] by simp
qed

theorem preserve_8char_code_rules_witness:
  "py_strip '' AB1 '' \<noteq> [] \<and> preserve_8char_code (PyStr '' AB1 '') = ''AB100000''"
proof -
  have h: "py_strip '' AB1 '' = ''AB1''"
    by (simp add: py_strip_def py_isspace_def)
  have d: "\<not> str_isdigit ''AB1''"
    by (simp add: str_isdigit_def py_isdigit_def)
  show ?thesis
    using preserve_8char_code_rules [of "'' AB1 ''"] by (simp add: h d)
qed

text \<open>
  Claim C8 as the specification words it has the empty input map to the empty string.
  The code does that for a missing value only: the empty string is not all digits and
  is shorter than 8, so it leaves the normalizer as \<open>00000000\<close>.
\<close>

theorem preserve_8char_code_empty_string:
  "preserve_8char_code (PyStr []) = ''00000000'' \<and> preserve_8char_code (PyStr []) \<noteq> []"
  by (simp add: norm_eval)

text \<open>
  The normalizer returns a normalized code unchanged exactly when that code does not
  end in a whitespace character.  (It can end in one only when the trimmed input is
  longer than 8 characters, is not all digits and has whitespace as its eighth
  character.)
\<close>

lemma normalizer_idempotent_iff:
  "preserve_8char_code (PyStr (preserve_8char_code (PyStr s))) = preserve_8char_code (PyStr s)
   \<longleftrightarrow> \<not> py_isspace (last (preserve_8char_code (PyStr s)))"
proof
  let ?y = "preserve_8char_code (PyStr s)"
  let ?t = "py_strip s"
  have len: "8 \<le> length ?y" by (rule preserve_length)
  then have ne: "?y \<noteq> []" by auto
  {
    assume "\<not> py_isspace (last ?y)"
    then have tr: "trimmed ?y" by (simp add: trimmed_def preserve_hd)
    have "str_isdigit ?y \<or> length ?y = 8"
      using preserve_digits [of s] preserve_length_8 [of s] by blast
    with tr len show "preserve_8char_code (PyStr ?y) = ?y"
      by (rule preserve_fixed)
  }
  {
    assume eq: "preserve_8char_code (PyStr ?y) = ?y"
    show "\<not> py_isspace (last ?y)"
    proof
      assume sp: "py_isspace (last ?y)"
      then have nd: "\<not> str_isdigit ?t"
        using preserve_last [of s] by blast
      then have "length ?y = 8" by (rule preserve_length_8)
      moreover have "length (py_strip ?y) < length ?y"
        using ne sp by (rule py_strip_shorter)
      ultimately have "length (py_strip ?y) \<le> 8" by simp
      then have "\<not> py_isspace (last (preserve_8char_code (PyStr ?y)))"
        using preserve_last [of ?y] by blast
      with eq sp show False by simp
    qed
  }
qed

text \<open>
  Claim C9 says that normalizing a normalized code returns it unchanged.  The code
  trims before it cuts: the input \<open>ABCDEFG I\<close> is cut to \<open>ABCDEFG\<close> followed by a
  space, and a second pass trims that and pads it to \<open>ABCDEFG0\<close>.  The engine makes
  that second pass on every RM code of a formula, while the stock is keyed by the codes
  of the first pass: a stock of 30 kg under that code is not found, and the finished
  good that needs it is reported short.
\<close>

theorem normalizer_not_idempotent:
  "preserve_8char_code (PyStr ''ABCDEFG I'') = ''ABCDEFG '' \<and>
   preserve_8char_code (PyStr (preserve_8char_code (PyStr ''ABCDEFG I''))) = ''ABCDEFG0'' \<and>
   production_analysis Binary64 3
     [\<lparr>stock_rm_code = preserve_8char_code (PyStr ''ABCDEFG I''), stock_quantity = 30\<rparr>]
     [\<lparr>fg_code = ''FG100000'', rm_code = preserve_8char_code (PyStr ''ABCDEFG I''),
        quantity = 30\<rparr>]
     Map.empty [''FG100000''] =
     Inr ([\<lparr>calc_fg = ''FG100000'', calc_expected_capacity = 0, max_capacity = 0,
              actual_capacity = 0, actual_batches = 0, status = status_shortage,
              missing_rms = [''ABCDEFG0''],
              shortage_breakdown =
                [''ABCDEFG0: Required 30.000 Kg per batch, Available 0.0000 Kg'']\<rparr>],
          [''ABCDEFG '' \<mapsto> 30])"
proof -
  have a: "preserve_8char_code (PyStr ''ABCDEFG I'') = ''ABCDEFG ''"
    and b: "preserve_8char_code (PyStr ''ABCDEFG '') = ''ABCDEFG0''"
    by (simp_all add: norm_eval)
  show ?thesis
    unfolding a b
    by (simp add: b engine_eval float_eval format_eval b64_eval)
qed

section \<open>Facts about rounding\<close>



lemma round_half_even_of_int [simp]: "round_half_even (of_int m) = m"
  by (simp add: round_half_even_def)

lemma b64_zero [simp]: "b64 0 = 0"
  by (simp add: b64_def)



lemma rnd_zero [simp]: "rnd ar 0 = 0"
  by (cases ar) simp_all








section \<open>The engine never raises\<close>

lemma float_floordiv_total: "wx \<noteq> 0 \<Longrightarrow> float_floordiv ar vx wx = Inr (floordiv_value ar vx wx)"
  by (simp add: float_floordiv_def)

lemma max_row_total: "\<exists>n. max_row ar dp st row = Inr n"
  by (auto simp: max_row_def Let_def float_floordiv_def)

lemma auto_row_total: "\<exists>out. auto_row ar dp st row = Inr out"
  by (auto simp: auto_row_def Let_def float_floordiv_def)

lemma expected_row_total: "\<exists>out. expected_row ar dp st eb row = Inr out"
proof (cases "py_round ar (quantity row) dp = 0")
  case True
  then show ?thesis by (simp add: expected_row_def Let_def fmul_def)
next
  case False
  then show ?thesis by (auto simp: expected_row_def Let_def float_floordiv_def)
qed

lemma expected_batches_of_total:
  "expected_batches_of ar ec = Inr (max 1 (py_int (floordiv_value ar ec 25)))"
  by (simp add: expected_batches_of_def float_floordiv_def)

lemma map_rows_total:
  assumes "\<And>x. \<exists>y. f x = Inr y"
  shows "\<exists>ys. map_rows f xs = Inr ys \<and> length ys = length xs"
proof (induction xs)
  case Nil
  show ?case by simp
next
  case (Cons x xs)
  from assms obtain y where "f x = Inr y" by blast
  moreover from Cons obtain ys where "map_rows f xs = Inr ys" "length ys = length xs" by blast
  ultimately show ?case by simp
qed

lemma actual_pass_total: "\<exists>n outs. actual_pass ar dp st ec formula = Inr (n, outs)"
proof (cases "0 < ec")
  case True
  let ?eb = "max 1 (py_int (floordiv_value ar ec 25))"
  obtain outs where "map_rows (expected_row ar dp st ?eb) formula = Inr outs"
    using map_rows_total [of "expected_row ar dp st ?eb" formula] expected_row_total by blast
  then show ?thesis using True
    by (simp add: actual_pass_def expected_batches_of_total)
next
  case False
  obtain outs where "map_rows (auto_row ar dp st) formula = Inr outs"
    using map_rows_total [of "auto_row ar dp st" formula] auto_row_total by blast
  then show ?thesis using False by (simp add: actual_pass_def)
qed

lemma process_fg_total: "\<exists>c a. process_fg ar dp init ec fg formula alloc = Inr (c, a)"
proof -
  obtain ms where "map_rows (max_row ar dp init) formula = Inr ms"
    using map_rows_total [of "max_row ar dp init" formula] max_row_total by blast
  moreover obtain n outs where "actual_pass ar dp alloc ec formula = Inr (n, outs)"
    using actual_pass_total by blast
  ultimately show ?thesis by (simp add: process_fg_def Let_def)
qed

lemma allocation_loop_total:
  "\<exists>cs fin. allocation_loop ar dp formulas ecs init order alloc = Inr (cs, fin)"
proof (induction order arbitrary: alloc)
  case Nil
  show ?case by simp
next
  case (Cons fg fgs)
  let ?formula = "filter (\<lambda>row. fg_code row = fg) formulas"
  show ?case
  proof (cases "?formula = []")
    case True
    then show ?thesis using Cons [of alloc] by (simp del: filter_False)
  next
    case False
    obtain c a where p: "process_fg ar dp init (expected_capacity_of ecs fg) fg ?formula alloc = Inr (c, a)"
      using process_fg_total by blast
    obtain cs fin where "allocation_loop ar dp formulas ecs init fgs a = Inr (cs, fin)"
      using Cons [of a] by blast
    then show ?thesis using False p by simp
  qed
qed

lemma production_analysis_total:
  "\<exists>calcs final_stock.
     production_analysis ar dp rm_stock formulas ecs order = Inr (calcs, final_stock)"
  using allocation_loop_total by (simp add: production_analysis_def)


lemma example_codes [simp]:
  "preserve_8char_code (PyStr ''RM_X0000'') = ''RM_X0000''"
  "preserve_8char_code (PyStr ''RM000001'') = ''RM000001''"
  "preserve_8char_code (PyStr ''RM_A0000'') = ''RM_A0000''"
  "preserve_8char_code (PyStr ''RM_B0000'') = ''RM_B0000''"
  "preserve_8char_code (PyStr ''RM_C0000'') = ''RM_C0000''"
  by (simp_all add: norm_eval)



section \<open>Status and maximum capacity of every result\<close>

lemma min_or_zero_Min: "min_or_zero xs = (if xs = [] then 0 else Min (set xs))"
proof (cases xs)
  case Nil
  then show ?thesis by (simp add: min_or_zero_def)
next
  case (Cons x ys)
  have "Min (set (x # ys)) = fold min ys x" by (rule Min.set_eq_fold)
  then show ?thesis using Cons by (simp add: min_or_zero_def)
qed

lemma max_row_spec: "max_row ar dp init row = Inr (spec_row_batches ar dp init row)"
  by (auto simp: max_row_def spec_row_batches_def Let_def float_floordiv_def)

lemma map_rows_Inr:
  assumes "\<And>x. f x = Inr (g x)"
  shows "map_rows f xs = Inr (map g xs)"
  by (induction xs) (simp_all add: assms)

lemma process_fg_max:
  assumes "process_fg ar dp init ec fg formula alloc = Inr (c, a)"
  shows "max_capacity c = spec_max_capacity ar dp init formula" and "calc_fg c = fg"
proof -
  have m: "map_rows (max_row ar dp init) formula = Inr (map (spec_row_batches ar dp init) formula)"
    by (rule map_rows_Inr) (rule max_row_spec)
  obtain n outs where "actual_pass ar dp alloc ec formula = Inr (n, outs)"
    using actual_pass_total by blast
  with assms m show "max_capacity c = spec_max_capacity ar dp init formula" and "calc_fg c = fg"
    by (auto simp: process_fg_def Let_def spec_max_capacity_def min_or_zero_Min)
qed

lemma process_fg_status:
  assumes "process_fg ar dp init ec fg formula alloc = Inr (c, a)"
  shows "status c = (if 25 \<le> actual_capacity c then status_ready else status_shortage)"
    and "actual_capacity c = actual_batches c * 25"
proof -
  obtain ms where m: "map_rows (max_row ar dp init) formula = Inr ms"
    using map_rows_total [of "max_row ar dp init" formula] max_row_total by blast
  obtain n outs where "actual_pass ar dp alloc ec formula = Inr (n, outs)"
    using actual_pass_total by blast
  with assms m
  show "status c = (if 25 \<le> actual_capacity c then status_ready else status_shortage)"
    and "actual_capacity c = actual_batches c * 25"
    by (auto simp: process_fg_def Let_def)
qed

lemma allocation_loop_list_all:
  assumes step: "\<And>fg alloc c a.
     formula_of formulas fg \<noteq> [] \<Longrightarrow>
     process_fg ar dp init (expected_capacity_of ecs fg) fg (formula_of formulas fg) alloc = Inr (c, a)
     \<Longrightarrow> P c"
  shows "allocation_loop ar dp formulas ecs init order alloc = Inr (cs, fin) \<Longrightarrow> list_all P cs"
proof (induction order arbitrary: alloc cs fin)
  case Nil
  then show ?case by simp
next
  case (Cons fg fgs)
  show ?case
  proof (cases "formula_of formulas fg = []")
    case True
    then show ?thesis using Cons by (simp add: formula_of_def del: filter_False)
  next
    case False
    obtain c a where p: "process_fg ar dp init (expected_capacity_of ecs fg) fg (formula_of formulas fg) alloc = Inr (c, a)"
      using process_fg_total by blast
    obtain cs' fin' where l: "allocation_loop ar dp formulas ecs init fgs a = Inr (cs', fin')"
      using allocation_loop_total by blast
    from Cons.prems False p l have "cs = c # cs'"
      by (simp add: formula_of_def)
    moreover have "P c" using False p by (rule step)
    moreover have "list_all P cs'" using l by (rule Cons.IH)
    ultimately show ?thesis by simp
  qed
qed

lemma allocation_loop_max:
  "allocation_loop ar dp formulas ecs init order alloc = Inr (cs, fin) \<Longrightarrow>
   map (\<lambda>c. (calc_fg c, max_capacity c)) cs =
   map (\<lambda>fg. (fg, spec_max_capacity ar dp init (formula_of formulas fg)))
       (reported_fgs formulas order)"
proof (induction order arbitrary: alloc cs fin)
  case Nil
  then show ?case by (simp add: reported_fgs_def)
next
  case (Cons fg fgs)
  show ?case
  proof (cases "formula_of formulas fg = []")
    case True
    then show ?thesis using Cons by (simp add: formula_of_def reported_fgs_def del: filter_False)
  next
    case False
    obtain c a where p: "process_fg ar dp init (expected_capacity_of ecs fg) fg (formula_of formulas fg) alloc = Inr (c, a)"
      using process_fg_total by blast
    obtain cs' fin' where l: "allocation_loop ar dp formulas ecs init fgs a = Inr (cs', fin')"
      using allocation_loop_total by blast
    from Cons.prems False p l have "cs = c # cs'"
      by (simp add: formula_of_def)
    moreover note process_fg_max [OF p] Cons.IH [OF l]
    ultimately show ?thesis using False by (simp add: reported_fgs_def)
  qed
qed

lemma status_labels_differ: "status_ready \<noteq> status_shortage"
  by (simp add: status_ready_def status_shortage_def)

text \<open>
  Claim C3.  Every result of a run has the status label of U+2705 followed by
  \<open>Ready\<close> exactly when its actual capacity is at least 25 kg, which is exactly when
  it has at least one batch, and the label of U+274C followed by \<open>Shortage\<close>
  otherwise; the emitted result row carries that label unchanged.
\<close>

theorem status_label_iff_capacity:
  "\<exists>calcs final_stock.
     production_analysis ar dp rm_stock formulas ecs order = Inr (calcs, final_stock) \<and>
     list_all (\<lambda>c. (status c = status_ready \<longleftrightarrow> 25 \<le> actual_capacity c) \<and>
                    (status c = status_shortage \<longleftrightarrow> actual_capacity c < 25) \<and>
                    (25 \<le> actual_capacity c \<longleftrightarrow> 1 \<le> actual_batches c)) calcs \<and>
     map res_status (results_of ar calcs) = map status calcs \<and>
     status_ready = CHR 0xE2 # CHR 0x9C # CHR 0x85 # '' Ready'' \<and>
     status_shortage = CHR 0xE2 # CHR 0x9D # CHR 0x8C # '' Shortage''"
proof -
  let ?P = "\<lambda>c. (status c = status_ready \<longleftrightarrow> 25 \<le> actual_capacity c) \<and>
                 (status c = status_shortage \<longleftrightarrow> actual_capacity c < 25) \<and>
                 (25 \<le> actual_capacity c \<longleftrightarrow> 1 \<le> actual_batches c)"
  obtain calcs final_stock where
    run: "production_analysis ar dp rm_stock formulas ecs order = Inr (calcs, final_stock)"
    using production_analysis_total by blast
  then have loop: "allocation_loop ar dp formulas ecs (stock_dict ar dp rm_stock) order
      (stock_dict ar dp rm_stock) = Inr (calcs, final_stock)"
    by (simp add: production_analysis_def)
  have "list_all ?P calcs"
  proof (rule allocation_loop_list_all [OF _ loop])
    fix fg alloc c a
    assume "process_fg ar dp (stock_dict ar dp rm_stock) (expected_capacity_of ecs fg) fg
              (formula_of formulas fg) alloc = Inr (c, a)"
    from process_fg_status [OF this] show "?P c"
      using status_labels_differ by auto
  qed
  moreover have "map res_status (results_of ar calcs) = map status calcs"
    by (simp add: results_of_def result_of_def)
  ultimately show ?thesis
    using run by (simp add: status_ready_def status_shortage_def)
qed

section \<open>The allocation engine on the example inputs\<close>

lemma fifo_forward:
  "production_analysis ar 3 fifo_stock fifo_formulas Map.empty [''FG100000'', ''FG200000''] =
     Inr ([\<lparr>calc_fg = ''FG100000'', calc_expected_capacity = 0, max_capacity = 25,
              actual_capacity = 25, actual_batches = 1, status = status_ready,
              missing_rms = [], shortage_breakdown = []\<rparr>,
           \<lparr>calc_fg = ''FG200000'', calc_expected_capacity = 0, max_capacity = 25,
              actual_capacity = 0, actual_batches = 0, status = status_shortage,
              missing_rms = [''RM_X0000''],
              shortage_breakdown =
                [''RM_X0000: Required 30.000 Kg per batch, Available 0.0000 Kg'']\<rparr>],
          [''RM_X0000'' \<mapsto> 0])"
proof (cases ar)
  case Exact
  then show ?thesis
    by (simp add: fifo_stock_def fifo_formulas_def engine_eval float_eval format_eval
        round_half_even_def Let_def)
next
  case Binary64
  then show ?thesis
    by (simp add: fifo_stock_def fifo_formulas_def engine_eval float_eval format_eval b64_eval)
qed

lemma fifo_reversed:
  "production_analysis ar 3 fifo_stock fifo_formulas Map.empty [''FG200000'', ''FG100000''] =
     Inr ([\<lparr>calc_fg = ''FG200000'', calc_expected_capacity = 0, max_capacity = 25,
              actual_capacity = 25, actual_batches = 1, status = status_ready,
              missing_rms = [], shortage_breakdown = []\<rparr>,
           \<lparr>calc_fg = ''FG100000'', calc_expected_capacity = 0, max_capacity = 25,
              actual_capacity = 0, actual_batches = 0, status = status_shortage,
              missing_rms = [''RM_X0000''],
              shortage_breakdown =
                [''RM_X0000: Required 30.000 Kg per batch, Available 0.0000 Kg'']\<rparr>],
          [''RM_X0000'' \<mapsto> 0])"
proof (cases ar)
  case Exact
  then show ?thesis
    by (simp add: fifo_stock_def fifo_formulas_def engine_eval float_eval format_eval
        round_half_even_def Let_def)
next
  case Binary64
  then show ?thesis
    by (simp add: fifo_stock_def fifo_formulas_def engine_eval float_eval format_eval b64_eval)
qed

text \<open>
  Claim C1.  With the FIFO order FG1, FG2 the run gives FG1 one batch (25 kg) and
  leaves 0 kg of RM_X in the allocated pool; FG2 gets no batch, has the status
  Shortage, and its one shortage line names RM_X.  With the order FG2, FG1 and the same
  stock it is FG2 that gets the batch and FG1 that is short.  This holds with exact
  arithmetic and with binary64 arithmetic; the codes are the normalized forms
  \<open>FG100000\<close>, \<open>FG200000\<close> and \<open>RM_X0000\<close>, the precision is 3 places.
\<close>

theorem fifo_order_decides:
  "(\<exists>fg1 fg2.
      production_analysis ar 3 fifo_stock fifo_formulas Map.empty [''FG100000'', ''FG200000''] =
        Inr ([fg1, fg2], [''RM_X0000'' \<mapsto> 0]) \<and>
      calc_fg fg1 = ''FG100000'' \<and> actual_batches fg1 = 1 \<and> actual_capacity fg1 = 25 \<and>
      status fg1 = status_ready \<and> shortage_breakdown fg1 = [] \<and>
      calc_fg fg2 = ''FG200000'' \<and> actual_batches fg2 = 0 \<and> actual_capacity fg2 = 0 \<and>
      status fg2 = status_shortage \<and> missing_rms fg2 = [''RM_X0000''] \<and>
      shortage_breakdown fg2 =
        [''RM_X0000: Required 30.000 Kg per batch, Available 0.0000 Kg'']) \<and>
   (\<exists>fg2 fg1.
      production_analysis ar 3 fifo_stock fifo_formulas Map.empty [''FG200000'', ''FG100000''] =
        Inr ([fg2, fg1], [''RM_X0000'' \<mapsto> 0]) \<and>
      calc_fg fg2 = ''FG200000'' \<and> actual_batches fg2 = 1 \<and> actual_capacity fg2 = 25 \<and>
      status fg2 = status_ready \<and> shortage_breakdown fg2 = [] \<and>
      calc_fg fg1 = ''FG100000'' \<and> actual_batches fg1 = 0 \<and> actual_capacity fg1 = 0 \<and>
      status fg1 = status_shortage \<and> missing_rms fg1 = [''RM_X0000''] \<and>
      shortage_breakdown fg1 =
        [''RM_X0000: Required 30.000 Kg per batch, Available 0.0000 Kg''])"
  by (simp add: fifo_forward fifo_reversed)

text \<open>
  Claim C10 says that the actual capacity never exceeds the maximum capacity.  In
  binary64 arithmetic the example with \<^verbatim>\<open>0.1\<close> kg per batch breaks it: the maximum
  pass computes \<^verbatim>\<open>1.0 // 0.1\<close>, which is 9, while the expected-capacity pass
  compares \<^verbatim>\<open>1.0 >= 0.1 * 10\<close>, which holds, and grants all 10 batches.  The result
  row reads Max 225.0 Kg, Actual 250.0 Kg.
\<close>

theorem actual_exceeds_max_binary64:
  "production_analysis Binary64 3 tenth_stock (tenth_formulas Binary64) tenth_expected
     [''FG000001''] =
     Inr ([\<lparr>calc_fg = ''FG000001'', calc_expected_capacity = 250, max_capacity = 225,
              actual_capacity = 250, actual_batches = 10, status = status_ready,
              missing_rms = [], shortage_breakdown = []\<rparr>],
          [''RM000001'' \<mapsto> 0]) \<and>
   results_of Binary64
     [\<lparr>calc_fg = ''FG000001'', calc_expected_capacity = 250, max_capacity = 225,
        actual_capacity = 250, actual_batches = 10, status = status_ready,
        missing_rms = [], shortage_breakdown = []\<rparr>] =
     [\<lparr>res_fg = ''FG000001'', res_expected = ''250.0 Kg'', res_max = ''225.0 Kg'',
        res_actual = ''250.0 Kg'', res_status = status_ready, res_missing = ''None'',
        res_batches = 10\<rparr>]"
  by (simp add: tenth_stock_def tenth_formulas_def tenth_expected_def engine_eval float_eval
      format_eval b64_eval results_of_def result_of_def)

text \<open>With exact arithmetic the same input gives 10 batches in both passes.\<close>

lemma actual_equals_max_exact:
  "production_analysis Exact 3 tenth_stock (tenth_formulas Exact) tenth_expected
     [''FG000001''] =
     Inr ([\<lparr>calc_fg = ''FG000001'', calc_expected_capacity = 250, max_capacity = 250,
              actual_capacity = 250, actual_batches = 10, status = status_ready,
              missing_rms = [], shortage_breakdown = []\<rparr>],
          [''RM000001'' \<mapsto> 0])"
  by (simp add: tenth_stock_def tenth_formulas_def tenth_expected_def engine_eval float_eval
      format_eval round_half_even_def Let_def)

section \<open>Actual and maximum capacity with exact arithmetic\<close>

text \<open>
  With exact arithmetic every depletion subtracts a non-negative amount, so the
  allocated pool stays below the initial stock, and every row supports at most as many
  batches in the actual pass as in the maximum pass.
\<close>

lemma round_half_even_mono: "x \<le> y \<Longrightarrow> round_half_even x \<le> round_half_even y"
proof -
  assume xy: "x \<le> y"
  have lo: "\<lfloor>z\<rfloor> \<le> round_half_even z" and hi: "round_half_even z \<le> \<lfloor>z\<rfloor> + 1" for z :: rat
    by (simp_all add: round_half_even_def Let_def)
  have fl: "\<lfloor>x\<rfloor> \<le> \<lfloor>y\<rfloor>" using xy by (rule floor_mono)
  show ?thesis
  proof (cases "\<lfloor>x\<rfloor> = \<lfloor>y\<rfloor>")
    case True
    then have "x - of_int \<lfloor>x\<rfloor> \<le> y - of_int \<lfloor>y\<rfloor>" using xy by simp
    then show ?thesis using True by (auto simp: round_half_even_def Let_def)
  next
    case False
    with fl have "\<lfloor>x\<rfloor> + 1 \<le> \<lfloor>y\<rfloor>" by simp
    with hi [of x] lo [of y] show ?thesis by linarith
  qed
qed

lemma py_round_Exact_mono: "x \<le> y \<Longrightarrow> py_round Exact x dp \<le> py_round Exact y dp"
proof -
  assume "x \<le> y"
  then have "x * 10 ^ dp \<le> y * 10 ^ dp" by simp
  then have "round_half_even (x * 10 ^ dp) \<le> round_half_even (y * 10 ^ dp)"
    by (rule round_half_even_mono)
  then show ?thesis by (simp add: py_round_def divide_right_mono)
qed

lemma py_round_Exact_idem: "py_round Exact (py_round Exact v dp) dp = py_round Exact v dp"
  by (simp add: py_round_def)

lemma py_round_Exact_zero [simp]: "py_round Exact 0 dp = 0"
  using round_half_even_of_int [of 0] by (simp add: py_round_def)

lemma floordiv_value_Exact:
  assumes "0 \<le> vx" and "0 < wx"
  shows "floordiv_value Exact vx wx = of_int \<lfloor>vx / wx\<rfloor>"
proof -
  define k where "k = \<lfloor>vx / wx\<rfloor>"
  have q: "0 \<le> vx / wx" using assms by simp
  then have pi: "py_int (vx / wx) = k" by (simp add: py_int_def k_def)
  have "of_int k \<le> vx / wx" unfolding k_def by (rule of_int_floor_le)
  then have "of_int k * wx \<le> vx" using assms(2) by (simp add: pos_le_divide_eq)
  then have neg: "\<not> (vx - wx * of_int k < 0)" by (simp add: mult.commute)
  have w: "\<not> wx < 0" "wx \<noteq> 0" using assms(2) by simp_all
  show ?thesis
    unfolding floordiv_value_def pi
    using neg w by (simp add: Let_def k_def [symmetric])
qed


lemma pool_below_refl: "pool_below s s"
  by (simp add: pool_below_def option.rel_refl)

lemma pool_below_get0: "pool_below a i \<Longrightarrow> get0 a rm \<le> get0 i rm"
proof -
  assume "pool_below a i"
  then have "rel_option (\<le>) (a rm) (i rm)" by (simp add: pool_below_def)
  then show ?thesis by (cases "a rm"; cases "i rm") (simp_all add: get0_def)
qed

lemma stock_dict_rounded: "rounded_stock dp (stock_dict Exact dp rm_stock)"
proof -
  have r: "py_round Exact v dp = v"
    if "map_of (rev (map (\<lambda>r. (stock_rm_code r, py_round Exact (stock_quantity r) dp)) rm_stock)) rm = Some v"
    for rm v
  proof -
    from that have "(rm, v) \<in> set (rev (map (\<lambda>r. (stock_rm_code r, py_round Exact (stock_quantity r) dp)) rm_stock))"
      by (rule map_of_SomeD)
    then have "\<exists>r :: stock_row. v = py_round Exact (stock_quantity r) dp" by auto
    then show ?thesis by (auto simp: py_round_Exact_idem)
  qed
  show ?thesis
    unfolding rounded_stock_def stock_dict_def by (intro allI impI) (rule r)
qed

lemma deplete_below:
  assumes "rounded_stock dp initial" and "0 \<le> n" and "\<forall>row \<in> set rows. 0 \<le> quantity row"
  shows "pool_below allocated initial \<Longrightarrow> pool_below (deplete Exact dp n rows allocated) initial"
  using assms(3)
proof (induction rows arbitrary: allocated)
  case Nil
  then show ?case by simp
next
  case (Cons row rows)
  let ?rm = "preserve_8char_code (PyStr (rm_code row))"
  let ?req = "py_round Exact (fmul Exact (quantity row) (float_of_int Exact n)) dp"
  let ?next = "case allocated ?rm of None \<Rightarrow> allocated
     | Some a \<Rightarrow> allocated(?rm \<mapsto> py_round Exact (fsub Exact a ?req) dp)"
  have q: "0 \<le> quantity row" using Cons.prems(2) by simp
  then have "0 \<le> quantity row * of_int n" using assms(2) by simp
  then have "py_round Exact 0 dp \<le> ?req"
    unfolding fmul_def float_of_int_def rnd.simps by (rule py_round_Exact_mono)
  then have req: "0 \<le> ?req" by simp
  have "pool_below ?next initial"
  proof (cases "allocated ?rm")
    case None
    then show ?thesis using Cons.prems(1) by simp
  next
    case (Some a)
    from Cons.prems(1) have "rel_option (\<le>) (allocated ?rm) (initial ?rm)"
      by (simp add: pool_below_def)
    with Some obtain v where v: "initial ?rm = Some v" "a \<le> v"
      by (cases "initial ?rm") simp_all
    have "a - ?req \<le> v" using req v(2) by simp
    then have "py_round Exact (a - ?req) dp \<le> py_round Exact v dp"
      by (rule py_round_Exact_mono)
    also have "\<dots> = v" using assms(1) v(1) by (simp add: rounded_stock_def)
    finally have "py_round Exact (fsub Exact a ?req) dp \<le> v" by (simp add: fsub_def)
    then show ?thesis using Some v(1) Cons.prems(1)
      by (simp add: pool_below_def)
  qed
  moreover have "\<forall>r \<in> set rows. 0 \<le> quantity r" using Cons.prems(2) by simp
  ultimately have "pool_below (deplete Exact dp n rows ?next) initial"
    by (rule Cons.IH)
  then show ?case by (simp add: Let_def)
qed

lemma map_rows_list_all2:
  assumes "\<And>x y. f x = Inr y \<Longrightarrow> R x y"
  shows "map_rows f xs = Inr ys \<Longrightarrow> list_all2 R xs ys"
proof (induction xs arbitrary: ys)
  case Nil
  then show ?case by simp
next
  case (Cons x xs)
  from Cons.prems obtain y ys' where y: "f x = Inr y" and ys': "map_rows f xs = Inr ys'"
    and ys: "ys = y # ys'"
    by (auto split: sum.splits)
  from y have "R x y" by (rule assms)
  moreover from ys' have "list_all2 R xs ys'" by (rule Cons.IH)
  ultimately show ?case using ys by simp
qed

lemma min_or_zero_le:
  assumes rel: "list_all2 (\<lambda>b m. g b \<le> m) bs ms"
    and mono: "\<And>x y. x \<le> y \<Longrightarrow> g x \<le> g y" and zero: "g 0 \<le> (0::int)"
  shows "g (min_or_zero bs) \<le> min_or_zero ms"
proof (cases "ms = []")
  case True
  with rel have "bs = []" by simp
  with True zero show ?thesis by (simp add: min_or_zero_def)
next
  case False
  with rel have ne: "bs \<noteq> []" by auto
  have "g (Min (set bs)) \<le> m" if "m \<in> set ms" for m
  proof -
    from that obtain i where i: "i < length ms" "ms ! i = m" by (auto simp: in_set_conv_nth)
    with rel have l: "i < length bs" and le: "g (bs ! i) \<le> m"
      by (auto simp: list_all2_conv_all_nth)
    then have "Min (set bs) \<le> bs ! i" by simp
    then have "g (Min (set bs)) \<le> g (bs ! i)" by (rule mono)
    with le show ?thesis by simp
  qed
  then show ?thesis using False ne by (simp add: min_or_zero_Min)
qed

lemma min_or_zero_pos: "0 < min_or_zero bs \<Longrightarrow> b \<in> set bs \<Longrightarrow> 0 < b"
  by (cases "bs = []") (auto simp: min_or_zero_Min)

lemma py_round_Exact_pos: "0 < py_round Exact q dp \<Longrightarrow> 0 \<le> q"
proof (rule ccontr)
  assume p: "0 < py_round Exact q dp" and "\<not> 0 \<le> q"
  then have "q \<le> 0" by simp
  then have "py_round Exact q dp \<le> py_round Exact 0 dp" by (rule py_round_Exact_mono)
  with p show False by simp
qed

lemma spec_row_batches_nonneg: "0 \<le> spec_row_batches Exact dp init row"
  by (simp add: spec_row_batches_def Let_def floordiv_value_Exact py_int_def)

lemma floor_quot_mono:
  fixes a v r :: rat
  assumes "a \<le> v" "0 < r"
  shows "\<lfloor>a / r\<rfloor> \<le> \<lfloor>v / r\<rfloor>"
  using assms by (intro floor_mono divide_right_mono) simp_all

lemma auto_row_batches:
  assumes "auto_row ar dp alloc row = Inr out"
  shows "batches out =
    (let rm = preserve_8char_code (PyStr (rm_code row));
         req = py_round ar (quantity row) dp
     in if req \<le> 0 \<or> get0 alloc rm \<le> 0 then 0
        else py_int (floordiv_value ar (get0 alloc rm) req))"
  using assms unfolding auto_row_def Let_def float_floordiv_def
  by (auto split: if_splits)

lemma expected_row_batches:
  assumes "expected_row ar dp alloc eb row = Inr out"
  shows "batches out =
    (let rm = preserve_8char_code (PyStr (rm_code row));
         req = py_round ar (quantity row) dp;
         total = fmul ar req (float_of_int ar eb)
     in if total \<le> 0 \<or> get0 alloc rm \<le> 0 then 0
        else if total \<le> get0 alloc rm then eb
        else py_int (floordiv_value ar (get0 alloc rm) req))"
  using assms unfolding expected_row_def Let_def float_floordiv_def
  by (auto split: if_splits)

lemma auto_row_below:
  assumes "pool_below alloc init" and "auto_row Exact dp alloc row = Inr out"
  shows "batches out \<le> spec_row_batches Exact dp init row"
    and "0 < batches out \<Longrightarrow> 0 \<le> quantity row"
proof -
  let ?rm = "preserve_8char_code (PyStr (rm_code row))"
  let ?req = "py_round Exact (quantity row) dp"
  have le: "get0 alloc ?rm \<le> get0 init ?rm" using assms(1) by (rule pool_below_get0)
  show "batches out \<le> spec_row_batches Exact dp init row"
  proof (cases "?req \<le> 0 \<or> get0 alloc ?rm \<le> 0")
    case True
    with auto_row_batches [OF assms(2)] have "batches out = 0" by (auto simp: Let_def)
    then show ?thesis by (simp add: spec_row_batches_nonneg)
  next
    case False
    then have r: "0 < ?req" and a: "0 < get0 alloc ?rm" by simp_all
    with le have v: "0 < get0 init ?rm" by simp
    from r a auto_row_batches [OF assms(2)] have "batches out = \<lfloor>get0 alloc ?rm / ?req\<rfloor>"
      by (simp add: Let_def floordiv_value_Exact py_int_def)
    moreover from r v have "spec_row_batches Exact dp init row = \<lfloor>get0 init ?rm / ?req\<rfloor>"
      by (simp add: spec_row_batches_def Let_def floordiv_value_Exact py_int_def)
    ultimately show ?thesis using floor_quot_mono [OF le r] by simp
  qed
  show "0 \<le> quantity row" if "0 < batches out"
  proof -
    from that auto_row_batches [OF assms(2)] have "0 < ?req"
      by (auto simp: Let_def split: if_splits)
    then show ?thesis by (rule py_round_Exact_pos)
  qed
qed

lemma expected_row_below:
  assumes "pool_below alloc init" and "expected_row Exact dp alloc eb row = Inr out" and "1 \<le> eb"
  shows "min eb (batches out) \<le> spec_row_batches Exact dp init row"
    and "0 < batches out \<Longrightarrow> 0 \<le> quantity row"
proof -
  let ?rm = "preserve_8char_code (PyStr (rm_code row))"
  let ?req = "py_round Exact (quantity row) dp"
  let ?total = "?req * of_int eb"
  have le: "get0 alloc ?rm \<le> get0 init ?rm" using assms(1) by (rule pool_below_get0)
  have tot: "fmul Exact ?req (float_of_int Exact eb) = ?total"
    by (simp add: fmul_def float_of_int_def)
  have eb: "(0::rat) < of_int eb" using assms(3) by simp
  have pos: "0 < ?req \<longleftrightarrow> 0 < ?total"
    using eb by (simp add: zero_less_mult_iff)
  show "min eb (batches out) \<le> spec_row_batches Exact dp init row"
  proof (cases "?total \<le> 0 \<or> get0 alloc ?rm \<le> 0")
    case True
    with expected_row_batches [OF assms(2)] have "batches out = 0" by (auto simp: Let_def tot)
    then show ?thesis using spec_row_batches_nonneg [of dp init row] by (simp add: min_def)
  next
    case False
    then have t: "0 < ?total" and a: "0 < get0 alloc ?rm" by simp_all
    with pos have r: "0 < ?req" by simp
    from a le have v: "0 < get0 init ?rm" by simp
    from r v have m: "spec_row_batches Exact dp init row = \<lfloor>get0 init ?rm / ?req\<rfloor>"
      by (simp add: spec_row_batches_def Let_def floordiv_value_Exact py_int_def)
    show ?thesis
    proof (cases "?total \<le> get0 alloc ?rm")
      case True
      then have "?total \<le> get0 init ?rm" using le by simp
      then have "of_int eb \<le> get0 init ?rm / ?req" using r by (simp add: pos_le_divide_eq mult.commute)
      then have "eb \<le> \<lfloor>get0 init ?rm / ?req\<rfloor>" by (simp add: le_floor_iff)
      then show ?thesis using m by (simp add: min_def)
    next
      case F: False
      with t a r expected_row_batches [OF assms(2)]
      have "batches out = \<lfloor>get0 alloc ?rm / ?req\<rfloor>"
        by (simp add: Let_def tot floordiv_value_Exact py_int_def)
      then show ?thesis using floor_quot_mono [OF le r] m by (simp add: min_def)
    qed
  qed
  show "0 \<le> quantity row" if "0 < batches out"
  proof -
    from that expected_row_batches [OF assms(2)] have "0 < ?total"
      by (auto simp: Let_def tot split: if_splits)
    with pos have "0 < ?req" by simp
    then show ?thesis by (rule py_round_Exact_pos)
  qed
qed

lemma actual_pass_below:
  assumes below: "pool_below alloc init"
    and pass: "actual_pass Exact dp alloc ec formula = Inr (n, outs)"
  shows "n \<le> min_or_zero (map (spec_row_batches Exact dp init) formula)"
    and "0 < n \<Longrightarrow> \<forall>row \<in> set formula. 0 \<le> quantity row"
proof -
  let ?ms = "map (spec_row_batches Exact dp init) formula"
  show "n \<le> min_or_zero ?ms"
  proof (cases "0 < ec")
    case True
    define eb where "eb = max 1 (py_int (floordiv_value Exact ec 25))"
    have eb: "1 \<le> eb" by (simp add: eb_def)
    from True pass have outs: "map_rows (expected_row Exact dp alloc eb) formula = Inr outs"
      and n: "n = min eb (min_or_zero (map batches outs))"
      by (auto simp: actual_pass_def expected_batches_of_total eb_def split: sum.splits)
    have "list_all2 (\<lambda>row out. min eb (batches out) \<le> spec_row_batches Exact dp init row) formula outs"
      using outs by (rule map_rows_list_all2 [rotated]) (rule expected_row_below(1) [OF below _ eb])
    then have "list_all2 (\<lambda>b m. min eb b \<le> m) (map batches outs) ?ms"
      by (simp add: list_all2_map1 list_all2_map2 list_all2_conv_all_nth)
    then have "min eb (min_or_zero (map batches outs)) \<le> min_or_zero ?ms"
      by (rule min_or_zero_le) (simp_all add: min_def)
    with n show ?thesis by simp
  next
    case False
    with pass have outs: "map_rows (auto_row Exact dp alloc) formula = Inr outs"
      and n: "n = min_or_zero (map batches outs)"
      by (auto simp: actual_pass_def split: sum.splits)
    have "list_all2 (\<lambda>row out. batches out \<le> spec_row_batches Exact dp init row) formula outs"
      using outs by (rule map_rows_list_all2 [rotated]) (rule auto_row_below(1) [OF below])
    then have "list_all2 (\<lambda>b m. id b \<le> m) (map batches outs) ?ms"
      by (simp add: list_all2_map1 list_all2_map2 list_all2_conv_all_nth)
    then have "id (min_or_zero (map batches outs)) \<le> min_or_zero ?ms"
      by (rule min_or_zero_le) simp_all
    with n show ?thesis by simp
  qed
  show "\<forall>row \<in> set formula. 0 \<le> quantity row" if pos: "0 < n"
  proof (cases "0 < ec")
    case True
    define eb where "eb = max 1 (py_int (floordiv_value Exact ec 25))"
    have eb: "1 \<le> eb" by (simp add: eb_def)
    from True pass have outs: "map_rows (expected_row Exact dp alloc eb) formula = Inr outs"
      and n: "n = min eb (min_or_zero (map batches outs))"
      by (auto simp: actual_pass_def expected_batches_of_total eb_def split: sum.splits)
    from pos n have p: "0 < min_or_zero (map batches outs)" by simp
    have rel: "list_all2 (\<lambda>row out. 0 < batches out \<longrightarrow> 0 \<le> quantity row) formula outs"
      using outs
      by (rule map_rows_list_all2 [rotated]) (simp add: expected_row_below(2) [OF below _ eb])
    show ?thesis
    proof
      fix row assume "row \<in> set formula"
      then obtain i where i: "i < length formula" "formula ! i = row"
        by (auto simp: in_set_conv_nth)
      with rel have "i < length outs" and imp: "0 < batches (outs ! i) \<longrightarrow> 0 \<le> quantity row"
        by (auto simp: list_all2_conv_all_nth)
      then have "batches (outs ! i) \<in> set (map batches outs)" by simp
      with p have "0 < batches (outs ! i)" by (rule min_or_zero_pos)
      with imp show "0 \<le> quantity row" by simp
    qed
  next
    case False
    with pass have outs: "map_rows (auto_row Exact dp alloc) formula = Inr outs"
      and n: "n = min_or_zero (map batches outs)"
      by (auto simp: actual_pass_def split: sum.splits)
    from pos n have p: "0 < min_or_zero (map batches outs)" by simp
    have rel: "list_all2 (\<lambda>row out. 0 < batches out \<longrightarrow> 0 \<le> quantity row) formula outs"
      using outs
      by (rule map_rows_list_all2 [rotated]) (simp add: auto_row_below(2) [OF below])
    show ?thesis
    proof
      fix row assume "row \<in> set formula"
      then obtain i where i: "i < length formula" "formula ! i = row"
        by (auto simp: in_set_conv_nth)
      with rel have "i < length outs" and imp: "0 < batches (outs ! i) \<longrightarrow> 0 \<le> quantity row"
        by (auto simp: list_all2_conv_all_nth)
      then have "batches (outs ! i) \<in> set (map batches outs)" by simp
      with p have "0 < batches (outs ! i)" by (rule min_or_zero_pos)
      with imp show "0 \<le> quantity row" by simp
    qed
  qed
qed

lemma process_fg_below:
  assumes below: "pool_below alloc init" and rounded: "rounded_stock dp init"
    and p: "process_fg Exact dp init ec fg formula alloc = Inr (c, a)"
  shows "actual_capacity c \<le> max_capacity c" and "pool_below a init"
proof -
  have m: "map_rows (max_row Exact dp init) formula = Inr (map (spec_row_batches Exact dp init) formula)"
    by (rule map_rows_Inr) (rule max_row_spec)
  obtain n outs where pass: "actual_pass Exact dp alloc ec formula = Inr (n, outs)"
    using actual_pass_total by blast
  note b = actual_pass_below [OF below pass]
  from p m pass have c: "actual_capacity c = n * 25"
    "max_capacity c = min_or_zero (map (spec_row_batches Exact dp init) formula) * 25"
    and a: "a = (if 0 < n \<and> (if 25 \<le> n * 25 then status_ready else status_shortage) = status_ready
                 then deplete Exact dp n formula alloc else alloc)"
    by (auto simp: process_fg_def Let_def)
  from c b(1) show "actual_capacity c \<le> max_capacity c" by simp
  show "pool_below a init"
  proof (cases "0 < n \<and> (if 25 \<le> n * 25 then status_ready else status_shortage) = status_ready")
    case True
    then have n: "0 \<le> n" and q: "\<forall>row \<in> set formula. 0 \<le> quantity row"
      using b(2) by simp_all
    from rounded n q below have "pool_below (deplete Exact dp n formula alloc) init"
      by (rule deplete_below)
    with True a show ?thesis by simp
  next
    case False
    with a below show ?thesis by simp
  qed
qed

lemma allocation_loop_below:
  assumes rounded: "rounded_stock dp init"
  shows "pool_below alloc init \<Longrightarrow>
    allocation_loop Exact dp formulas ecs init order alloc = Inr (cs, fin) \<Longrightarrow>
    list_all (\<lambda>c. actual_capacity c \<le> max_capacity c) cs \<and> pool_below fin init"
proof (induction order arbitrary: alloc cs fin)
  case Nil
  then show ?case by simp
next
  case (Cons fg fgs)
  show ?case
  proof (cases "formula_of formulas fg = []")
    case True
    with Cons.prems(2) have "allocation_loop Exact dp formulas ecs init fgs alloc = Inr (cs, fin)"
      by (simp add: formula_of_def del: filter_False)
    with Cons.prems(1) show ?thesis by (rule Cons.IH)
  next
    case False
    obtain c a where p: "process_fg Exact dp init (expected_capacity_of ecs fg) fg
        (formula_of formulas fg) alloc = Inr (c, a)"
      using process_fg_total by blast
    obtain cs' fin' where l: "allocation_loop Exact dp formulas ecs init fgs a = Inr (cs', fin')"
      using allocation_loop_total by blast
    from Cons.prems(2) False p l have eq: "cs = c # cs'" "fin = fin'"
      by (simp_all add: formula_of_def)
    note pb = process_fg_below [OF Cons.prems(1) rounded p]
    from pb(2) l have "list_all (\<lambda>c. actual_capacity c \<le> max_capacity c) cs' \<and> pool_below fin' init"
      by (rule Cons.IH)
    with pb(1) eq show ?thesis by simp
  qed
qed

text \<open>
  With exact arithmetic the bound of claim C10 holds: in every run each result has an
  actual capacity of at most its maximum capacity, and the allocated pool stays below
  the initial stock.
\<close>

lemma actual_le_max_exact:
  "\<exists>calcs final_stock.
     production_analysis Exact dp rm_stock formulas ecs order = Inr (calcs, final_stock) \<and>
     list_all (\<lambda>c. actual_capacity c \<le> max_capacity c) calcs \<and>
     pool_below final_stock (stock_dict Exact dp rm_stock)"
proof -
  obtain calcs final_stock where
    run: "production_analysis Exact dp rm_stock formulas ecs order = Inr (calcs, final_stock)"
    using production_analysis_total by blast
  then have "allocation_loop Exact dp formulas ecs (stock_dict Exact dp rm_stock) order
      (stock_dict Exact dp rm_stock) = Inr (calcs, final_stock)"
    by (simp add: production_analysis_def)
  with stock_dict_rounded pool_below_refl
  have "list_all (\<lambda>c. actual_capacity c \<le> max_capacity c) calcs \<and>
     pool_below final_stock (stock_dict Exact dp rm_stock)"
    by (rule allocation_loop_below)
  with run show ?thesis by blast
qed

section \<open>The maximum capacity ignores the depletion\<close>

text \<open>
  Claim C2.  In every run the maximum capacity reported for a finished good is the
  specification's figure computed from the initial stock alone: per formula row the
  floor quotient of the initial stock by the quantity per batch, the minimum over the
  rows, times 25.  The loop reports the same maximum capacities whatever the
  allocated pool and the expected capacities are.  The actual capacity does depend on
  the pool: in the FIFO example each finished good has the maximum capacity 25 in both
  orders and the actual capacity 25 when it comes first, 0 when it comes second.  With
  exact arithmetic the floor quotient of a row is the floor of the quotient.
\<close>

theorem max_capacity_from_initial_stock:
  "(\<exists>calcs final_stock calcs' final_stock'.
     production_analysis ar dp rm_stock formulas ecs order = Inr (calcs, final_stock) \<and>
     map (\<lambda>c. (calc_fg c, max_capacity c)) calcs =
       map (\<lambda>fg. (fg, spec_max_capacity ar dp (stock_dict ar dp rm_stock) (formula_of formulas fg)))
           (reported_fgs formulas order) \<and>
     allocation_loop ar dp formulas ecs' (stock_dict ar dp rm_stock) order allocated
       = Inr (calcs', final_stock') \<and>
     map max_capacity calcs' = map max_capacity calcs) \<and>
   (\<exists>calcs final_stock calcs' final_stock'.
     production_analysis ar 3 fifo_stock fifo_formulas Map.empty [''FG100000'', ''FG200000'']
       = Inr (calcs, final_stock) \<and>
     map (\<lambda>c. (calc_fg c, max_capacity c, actual_capacity c)) calcs =
       [(''FG100000'', 25, 25), (''FG200000'', 25, 0)] \<and>
     production_analysis ar 3 fifo_stock fifo_formulas Map.empty [''FG200000'', ''FG100000'']
       = Inr (calcs', final_stock') \<and>
     map (\<lambda>c. (calc_fg c, max_capacity c, actual_capacity c)) calcs' =
       [(''FG200000'', 25, 25), (''FG100000'', 25, 0)]) \<and>
   spec_row_batches Exact dp initial row =
     (let qty_per_batch = py_round Exact (quantity row) dp;
          on_hand = get0 initial (preserve_8char_code (PyStr (rm_code row)))
      in if 0 < qty_per_batch \<and> 0 < on_hand then \<lfloor>on_hand / qty_per_batch\<rfloor> else 0)"
proof (intro conjI)
  let ?init = "stock_dict ar dp rm_stock"
  obtain calcs final_stock where
    run: "production_analysis ar dp rm_stock formulas ecs order = Inr (calcs, final_stock)"
    using production_analysis_total by blast
  then have loop: "allocation_loop ar dp formulas ecs ?init order ?init = Inr (calcs, final_stock)"
    by (simp add: production_analysis_def)
  obtain calcs' final_stock' where
    loop': "allocation_loop ar dp formulas ecs' ?init order allocated = Inr (calcs', final_stock')"
    using allocation_loop_total by blast
  have m: "map (\<lambda>c. (calc_fg c, max_capacity c)) calcs =
       map (\<lambda>fg. (fg, spec_max_capacity ar dp ?init (formula_of formulas fg)))
           (reported_fgs formulas order)"
    using loop by (rule allocation_loop_max)
  have m': "map (\<lambda>c. (calc_fg c, max_capacity c)) calcs' =
       map (\<lambda>fg. (fg, spec_max_capacity ar dp ?init (formula_of formulas fg)))
           (reported_fgs formulas order)"
    using loop' by (rule allocation_loop_max)
  have "map max_capacity calcs' = map snd (map (\<lambda>c. (calc_fg c, max_capacity c)) calcs')"
    by simp
  also have "\<dots> = map snd (map (\<lambda>c. (calc_fg c, max_capacity c)) calcs)"
    by (simp only: m m')
  also have "\<dots> = map max_capacity calcs" by simp
  finally show "\<exists>calcs final_stock calcs' final_stock'.
     production_analysis ar dp rm_stock formulas ecs order = Inr (calcs, final_stock) \<and>
     map (\<lambda>c. (calc_fg c, max_capacity c)) calcs =
       map (\<lambda>fg. (fg, spec_max_capacity ar dp (stock_dict ar dp rm_stock) (formula_of formulas fg)))
           (reported_fgs formulas order) \<and>
     allocation_loop ar dp formulas ecs' (stock_dict ar dp rm_stock) order allocated
       = Inr (calcs', final_stock') \<and>
     map max_capacity calcs' = map max_capacity calcs"
    using run m loop' by blast
next
  show "\<exists>calcs final_stock calcs' final_stock'.
     production_analysis ar 3 fifo_stock fifo_formulas Map.empty [''FG100000'', ''FG200000'']
       = Inr (calcs, final_stock) \<and>
     map (\<lambda>c. (calc_fg c, max_capacity c, actual_capacity c)) calcs =
       [(''FG100000'', 25, 25), (''FG200000'', 25, 0)] \<and>
     production_analysis ar 3 fifo_stock fifo_formulas Map.empty [''FG200000'', ''FG100000'']
       = Inr (calcs', final_stock') \<and>
     map (\<lambda>c. (calc_fg c, max_capacity c, actual_capacity c)) calcs' =
       [(''FG200000'', 25, 25), (''FG100000'', 25, 0)]"
    by (simp add: fifo_forward fifo_reversed)
next
  show "spec_row_batches Exact dp initial row =
     (let qty_per_batch = py_round Exact (quantity row) dp;
          on_hand = get0 initial (preserve_8char_code (PyStr (rm_code row)))
      in if 0 < qty_per_batch \<and> 0 < on_hand then \<lfloor>on_hand / qty_per_batch\<rfloor> else 0)"
    by (simp add: spec_row_batches_def Let_def floordiv_value_Exact py_int_def)
qed

section \<open>The target of the expected-capacity mode\<close>




section \<open>The formula transforms\<close>

lemma floor_component [simp]: "py_round ar (float_lit ar (1 / 10000)) 4 = float_lit ar (1 / 10000)"
  by (cases ar) (simp_all add: float_eval b64_eval)

lemma floor_component_nonzero: "float_lit ar (1 / 10000) \<noteq> 0"
  by (cases ar) (simp_all add: float_eval b64_eval)

lemma floor_component_shown: "format_f (float_lit ar (1 / 10000)) 4 = ''0.0001''"
  by (cases ar) (simp_all add: float_eval format_eval b64_eval)

lemma dilution_example_raw:
  "\<bar>fmul ar (float_lit ar (1 / 1000)) (fdiv ar 1 100)\<bar> < float_lit ar (5 / 100000)"
  by (cases ar) (simp_all add: float_eval b64_eval)

lemma floor_component_sum: "group_sum ar [float_lit ar (1 / 10000)] = float_lit ar (1 / 10000)"
  by (cases ar) (simp_all add: group_sum_def float_eval b64_eval)

text \<open>
  Claim C6.  The quantity of a component is the original quantity times the
  percentage over 100; when its absolute value is below \<^verbatim>\<open>0.00005\<close> it is replaced
  by \<^verbatim>\<open>0.0001\<close>, and the result is rounded to 4 places, which leaves \<^verbatim>\<open>0.0001\<close> as
  it is.  A row with \<^verbatim>\<open>0.001\<close> kg under a rule of 1 percent gives the component row
  with exactly \<^verbatim>\<open>0.0001\<close> kg, which is not zero and prints as \<open>0.0001\<close>.
\<close>

theorem dilution_floor_rule:
  "component_quantity ar qty pct =
     py_round ar (if \<bar>fmul ar qty (fdiv ar pct 100)\<bar> < float_lit ar (5 / 100000)
                  then float_lit ar (1 / 10000) else fmul ar qty (fdiv ar pct 100)) 4 \<and>
   (\<bar>fmul ar qty (fdiv ar pct 100)\<bar> < float_lit ar (5 / 100000) \<longrightarrow>
      component_quantity ar qty pct = float_lit ar (1 / 10000)) \<and>
   fmul Exact qty (fdiv Exact pct 100) = qty * pct / 100 \<and>
   float_lit Exact (5 / 100000) = 5 / 100000 \<and>
   float_lit Exact (1 / 10000) = 1 / 10000 \<and>
   apply_dilution_rules ar dilution_rules (dilution_formulas ar) =
     [\<lparr>fg_code = ''FG100000'', rm_code = ''RM_C0000'', quantity = float_lit ar (1 / 10000)\<rparr>] \<and>
   float_lit ar (1 / 10000) \<noteq> 0 \<and>
   format_f (float_lit ar (1 / 10000)) 4 = ''0.0001''"
proof -
  have c: "component_quantity ar (float_lit ar (1 / 1000)) 1 = float_lit ar (1 / 10000)"
    using dilution_example_raw [of ar] by (simp add: component_quantity_def Let_def)
  have "apply_dilution_rules ar dilution_rules (dilution_formulas ar) =
     [\<lparr>fg_code = ''FG100000'', rm_code = ''RM_C0000'', quantity = float_lit ar (1 / 10000)\<rparr>]"
    by (simp add: apply_dilution_rules_def dilution_rules_def dilution_formulas_def dilute_row_def
        groupby_sum_def group_key_def c floor_component_sum Let_def)
  moreover have "component_quantity ar qty pct =
     py_round ar (if \<bar>fmul ar qty (fdiv ar pct 100)\<bar> < float_lit ar (5 / 100000)
                  then float_lit ar (1 / 10000) else fmul ar qty (fdiv ar pct 100)) 4"
    by (simp add: component_quantity_def Let_def)
  moreover have "\<bar>fmul ar qty (fdiv ar pct 100)\<bar> < float_lit ar (5 / 100000) \<longrightarrow>
      component_quantity ar qty pct = float_lit ar (1 / 10000)"
    by (simp add: component_quantity_def Let_def)
  moreover have "fmul Exact qty (fdiv Exact pct 100) = qty * pct / 100"
    by (simp add: fmul_def fdiv_def)
  moreover have "float_lit Exact (5 / 100000) = 5 / 100000"
    and "float_lit Exact (1 / 10000) = 1 / 10000"
    by (simp_all add: float_lit_def)
  ultimately show ?thesis
    using floor_component_nonzero [of ar] floor_component_shown [of ar] by blast
qed

theorem dilution_floor_rule_witness:
  "\<bar>fmul Binary64 (float_lit Binary64 (1 / 1000)) (fdiv Binary64 1 100)\<bar>
     < float_lit Binary64 (5 / 100000) \<and>
   component_quantity Binary64 (float_lit Binary64 (1 / 1000)) 1 = float_lit Binary64 (1 / 10000)"
  using dilution_floor_rule [of Binary64 "float_lit Binary64 (1 / 1000)" 1]
    dilution_example_raw [of Binary64] by blast













end
